theory Spec2Isabelle
  imports Complex_Main
begin

section \<open>The temporal CNN of \<open>src/model/tempcnn.py\<close>\<close>

text \<open>
  The file builds a position-encoding table, a decoder, and the \<open>TempConv\<close> module with
  its forward pass. Python integers are \<open>int\<close>, Python lists are HOL lists, an exception
  is the left summand of a result. Floating-point numbers are values of two types left
  open, \<open>'d\<close> for double precision and \<open>'s\<close> for single precision, and the floating-point
  operations that the source calls are parameters of the model.
\<close>

subsection \<open>Errors and layers\<close>

datatype error = IndexError | AttributeError | ValueError | RuntimeError | OverflowError

text \<open>
  The layers of the neural-network library are descriptors carrying the constructor's
  arguments: \<open>Linear in out\<close>, \<open>Conv1d in out kernel_size padding\<close>,
  \<open>BatchNorm1d features\<close>, \<open>ReLU\<close>. A \<open>Sequential\<close> is the list of its layers. The
  library's own validation of a layer's arguments is not part of the file under study
  and is not modelled.
\<close>

datatype layer =
    Linear int int
  | Conv1d int int nat nat
  | BatchNorm1d int
  | ReLU

text \<open>Python's \<open>range(n)\<close> for an integer \<open>n\<close>: empty when \<open>n \<le> 0\<close>.\<close>

definition py_range :: "int \<Rightarrow> nat list" where
  "py_range n = [0..<nat n]"

subsection \<open>\<open>get_decoder\<close>\<close>

text \<open>
  The loop \<open>for i in range(len(n_neurons)-1)\<close> with the list \<open>layers\<close> it appends to.
  Inside the loop \<open>i + 1 < len(n_neurons)\<close>, so both reads are in range.
\<close>

fun get_decoder_loop :: "int list \<Rightarrow> nat list \<Rightarrow> layer list \<Rightarrow> layer list" where
  "get_decoder_loop n_neurons [] layers = layers"
| "get_decoder_loop n_neurons (i # rest) layers =
     get_decoder_loop n_neurons rest
       (let layers' = layers @ [Linear (n_neurons ! i) (n_neurons ! (i + 1))]
        in if int i < int (length n_neurons) - 2
           then layers' @ [BatchNorm1d (n_neurons ! (i + 1)), ReLU]
           else layers')"

definition get_decoder :: "int list \<Rightarrow> layer list" where
  "get_decoder n_neurons =
     get_decoder_loop n_neurons (py_range (int (length n_neurons) - 1)) []"

fun is_Linear :: "layer \<Rightarrow> bool" where
  "is_Linear (Linear a b) = True"
| "is_Linear l = False"

subsection \<open>\<open>get_sinusoid_encoding_table\<close>\<close>

text \<open>
  \<open>positions\<close> is an integer or a list of integers; an integer \<open>n\<close> stands for
  \<open>list(range(n))\<close>.
\<close>

datatype positions = PInt int | PList "int list"

fun positions_list :: "positions \<Rightarrow> int list" where
  "positions_list (PInt n) = map int (py_range n)"
| "positions_list (PList ps) = ps"

text \<open>
  The floating-point operations of lines 20 to 33, as the language and the numerical
  libraries provide them: the conversion of an integer to a double, which raises
  \<open>OverflowError\<close> (here \<open>None\<close>) beyond the range of a double; the true division of two
  integers; power, division, sine and cosine on doubles; and the narrowing of a double
  to single precision.
\<close>

record ('d, 's) floats =
  to_double :: "int \<Rightarrow> 'd option"
  true_div :: "int \<Rightarrow> int \<Rightarrow> 'd"
  np_power :: "'d \<Rightarrow> 'd \<Rightarrow> 'd"
  np_divide :: "'d \<Rightarrow> 'd \<Rightarrow> 'd"
  np_sin :: "'d \<Rightarrow> 'd"
  np_cos :: "'d \<Rightarrow> 'd"
  narrow :: "'d \<Rightarrow> 's"

text \<open>
  \<open>position / np.power(T, 2 * (hid_idx // 2) / d_hid)\<close>: the power is computed, then the
  division converts \<open>position\<close> to a double.
\<close>

definition cal_angle :: "('d, 's) floats \<Rightarrow> 'd \<Rightarrow> int \<Rightarrow> int \<Rightarrow> nat \<Rightarrow> error + 'd" where
  "cal_angle fl T d_hid position hid_idx =
     (let power = np_power fl T (true_div fl (2 * int (hid_idx div 2)) d_hid)
      in case to_double fl position of
           None \<Rightarrow> Inl OverflowError
         | Some x \<Rightarrow> Inr (np_divide fl x power))"

text \<open>A list comprehension whose element may raise: the first error ends it.\<close>

fun collect :: "(error + 'a) list \<Rightarrow> error + 'a list" where
  "collect [] = Inr []"
| "collect (r # rs) =
     (case r of
        Inl e \<Rightarrow> Inl e
      | Inr x \<Rightarrow> (case collect rs of Inl e \<Rightarrow> Inl e | Inr xs \<Rightarrow> Inr (x # xs)))"

definition get_posi_angle_vec :: "('d, 's) floats \<Rightarrow> 'd \<Rightarrow> int \<Rightarrow> int \<Rightarrow> error + 'd list" where
  "get_posi_angle_vec fl T d_hid position =
     collect (map (cal_angle fl T d_hid position) (py_range d_hid))"

text \<open>
  The slice assignment \<open>table[:, start::2] = f(table[:, start::2])\<close>: in every row, the
  columns \<open>start, start + 2, ...\<close> are replaced by their image under \<open>f\<close>.
\<close>

definition assign_cols :: "nat \<Rightarrow> ('a \<Rightarrow> 'a) \<Rightarrow> 'a list list \<Rightarrow> 'a list list" where
  "assign_cols start f table =
     map (\<lambda>row. map (\<lambda>j. if start \<le> j \<and> even (j - start) then f (row ! j) else row ! j)
                     [0..<length row])
         table"

text \<open>
  The array built from an empty list of rows has a single axis, and the slice over two
  axes then raises \<open>IndexError\<close>. Otherwise the array has the axes (rows, \<open>d_hid\<close>), and
  the result is its narrowing to single precision.
\<close>

definition get_sinusoid_encoding_table ::
  "('d, 's) floats \<Rightarrow> positions \<Rightarrow> int \<Rightarrow> 'd \<Rightarrow> error + 's list list" where
  "get_sinusoid_encoding_table fl positions d_hid T =
     (let positions' = positions_list positions
      in case collect (map (get_posi_angle_vec fl T d_hid) positions') of
           Inl e \<Rightarrow> Inl e
         | Inr sinusoid_table \<Rightarrow>
             if sinusoid_table = [] then Inl IndexError
             else Inr (map (map (narrow fl))
                        (assign_cols 1 (np_cos fl) (assign_cols 0 (np_sin fl) sinusoid_table))))"

subsection \<open>Lists as objects: the store\<close>

text \<open>
  \<open>nker\<close> and \<open>nfc\<close> are mutable list objects that the caller shares with the
  constructor. A reference is an address in a store of integer lists;
  \<open>copy.deepcopy\<close> allocates a new object, \<open>list.insert(0, x)\<close> updates one in place.
\<close>

type_synonym ref = nat
type_synonym heap = "int list list"

definition deepcopy :: "heap \<Rightarrow> ref \<Rightarrow> heap \<times> ref" where
  "deepcopy h r = (h @ [h ! r], length h)"

definition insert0 :: "heap \<Rightarrow> ref \<Rightarrow> int \<Rightarrow> heap" where
  "insert0 h r x = h[r := x # h ! r]"

subsection \<open>\<open>str\<close> and \<open>join\<close>\<close>

definition digit_char :: "nat \<Rightarrow> char" where
  "digit_char d = ''0123456789'' ! d"

fun str_nat :: "nat \<Rightarrow> string" where
  "str_nat n = (if n < 10 then [digit_char n]
                else str_nat (n div 10) @ [digit_char (n mod 10)])"

declare str_nat.simps [simp del]

definition str :: "int \<Rightarrow> string" where
  "str i = (if i < 0 then CHR ''-'' # str_nat (nat (- i)) else str_nat (nat i))"

fun join :: "string \<Rightarrow> string list \<Rightarrow> string" where
  "join sep [] = []"
| "join sep [x] = x"
| "join sep (x # y # ys) = x @ sep @ join sep (y # ys)"

subsection \<open>\<open>TempConv.__init__\<close>\<close>

text \<open>
  The fields the constructor assigns. \<open>nker\<close> and \<open>nfc\<close> are references to the copies
  (\<open>nfc\<close> may be \<open>None\<close>); \<open>position_enc\<close> is the frozen embedding weight, a list of
  rows of single-precision values; \<open>training\<close> is the mode flag of the module base class, which its constructor
  sets. The field \<open>linear\<close> is written \<open>linear'\<close>.
\<close>

record 's TempConv =
  input_size :: int
  seq_len :: int
  name :: string
  nker :: ref
  nfc :: "ref option"
  decoder :: "layer list"
  conv1d :: "layer list"
  linear' :: "layer list"
  position_enc :: "'s list list option"
  training :: bool

fun conv_loop :: "int list \<Rightarrow> nat list \<Rightarrow> layer list \<Rightarrow> layer list" where
  "conv_loop ws [] conv_layers = conv_layers"
| "conv_loop ws (i # rest) conv_layers =
     conv_loop ws rest
       (conv_layers @ [Conv1d (ws ! i) (ws ! (i + 1)) 3 1, BatchNorm1d (ws ! (i + 1)), ReLU])"

fun lin_loop :: "int list \<Rightarrow> nat list \<Rightarrow> layer list \<Rightarrow> layer list" where
  "lin_loop ws [] lin_layers = lin_layers"
| "lin_loop ws (i # rest) lin_layers =
     lin_loop ws rest
       (lin_layers @ [Linear (ws ! i) (ws ! (i + 1)), BatchNorm1d (ws ! (i + 1)), ReLU])"

text \<open>
  The constructor, statement by statement. \<open>self.nfc.insert\<close> on \<open>None\<close> raises
  \<open>AttributeError\<close>; the table is built last, with \<open>d_hid = input_size\<close> and
  \<open>T = 1000\<close>. The result is the module and the store.
\<close>

definition TempConv_init ::
  "('d::numeral, 's) floats \<Rightarrow> heap \<Rightarrow> int \<Rightarrow> ref \<Rightarrow> int \<Rightarrow> ref option \<Rightarrow> int list
     \<Rightarrow> positions option \<Rightarrow> error + ('s TempConv \<times> heap)" where
  "TempConv_init fl h input_size' nker' seq_len' nfc' mlp4 positions =
     (let name0 = ''TempCNN_'';
          (h1, self_nker) = deepcopy h nker';
          (h2, self_nfc) = (case nfc' of
                              None \<Rightarrow> (h1, None)
                            | Some r \<Rightarrow> (let (h', r') = deepcopy h1 r in (h', Some r')));
          name1 = name0 @ join ''|'' (map str (h2 ! self_nker));
          decoder' = get_decoder mlp4;
          name2 = (case self_nfc of
                     None \<Rightarrow> name1
                   | Some r \<Rightarrow> name1 @ ''FC'' @ join ''|'' (map str (h2 ! r)));
          h3 = insert0 h2 self_nker input_size';
          conv_layers = conv_loop (h3 ! self_nker)
                          (py_range (int (length (h3 ! self_nker)) - 1)) []
      in case self_nfc of
           None \<Rightarrow> Inl AttributeError
         | Some r \<Rightarrow>
             (let h4 = insert0 h3 r (last (h3 ! self_nker) * seq_len');
                  lin_layers = lin_loop (h4 ! r) (py_range (int (length (h4 ! r)) - 1)) [];
                  self = \<lparr>input_size = input_size', seq_len = seq_len', name = name2,
                          nker = self_nker, nfc = self_nfc, decoder = decoder',
                          conv1d = conv_layers, linear' = lin_layers,
                          position_enc = None, training = True\<rparr>
              in case positions of
                   None \<Rightarrow> Inr (self, h4)
                 | Some p \<Rightarrow>
                     (case get_sinusoid_encoding_table fl p input_size' 1000 of
                        Inl e \<Rightarrow> Inl e
                      | Inr table \<Rightarrow> Inr (self\<lparr>position_enc := Some table\<rparr>, h4))))"

subsection \<open>Tensors and the layers' effect on shapes\<close>

text \<open>
  A tensor is its shape and its entries, read by index; the entries are of the
  single-precision type, with its addition. The trained parameters of the layers are
  not part of the source, so past the position encoding the forward pass is followed on
  shapes.
\<close>

record 's tensor =
  shape :: "nat list"
  elem :: "nat list \<Rightarrow> 's"

text \<open>
  Elementwise addition with broadcasting, for operands with the same number of axes (as
  both operands of the addition in \<open>forward\<close> have): two sizes are compatible when they
  are equal or one of them is 1, and an axis of size 1 is read at index 0.
\<close>

definition broadcast_dim :: "nat \<Rightarrow> nat \<Rightarrow> nat option" where
  "broadcast_dim a b =
     (if a = b then Some a else if a = 1 then Some b else if b = 1 then Some a else None)"

fun broadcast_shapes :: "nat list \<Rightarrow> nat list \<Rightarrow> nat list option" where
  "broadcast_shapes [] [] = Some []"
| "broadcast_shapes (a # as) (b # bs) =
     (case broadcast_dim a b of
        None \<Rightarrow> None
      | Some d \<Rightarrow> (case broadcast_shapes as bs of None \<Rightarrow> None | Some ds \<Rightarrow> Some (d # ds)))"
| "broadcast_shapes as bs = None"

definition broadcast_index :: "nat list \<Rightarrow> nat list \<Rightarrow> nat list" where
  "broadcast_index s i = map2 (\<lambda>d k. if d = 1 then 0 else k) s i"

definition tensor_add :: "('s::plus) tensor \<Rightarrow> 's tensor \<Rightarrow> error + 's tensor" where
  "tensor_add x y =
     (case broadcast_shapes (shape x) (shape y) of
        None \<Rightarrow> Inl RuntimeError
      | Some s \<Rightarrow>
          Inr \<lparr>shape = s,
               elem = (\<lambda>i. elem x (broadcast_index (shape x) i)
                          + elem y (broadcast_index (shape y) i))\<rparr>)"

text \<open>
  Entry \<open>(b, t)\<close> of \<open>torch.arange(1, seq_len + 1).expand(sz_b, seq_len)\<close>.
\<close>

definition src_pos :: "nat \<Rightarrow> nat \<Rightarrow> nat" where
  "src_pos b t = t + 1"

text \<open>
  The embedding lookup with an index tensor of shape \<open>(n, m)\<close>: every index must be a
  row of the weight, or the lookup raises \<open>IndexError\<close>; the result has the shape
  \<open>(n, m, width)\<close>.
\<close>

definition embedding ::
  "'s list list \<Rightarrow> nat \<Rightarrow> nat \<Rightarrow> (nat \<Rightarrow> nat \<Rightarrow> nat) \<Rightarrow> error + 's tensor" where
  "embedding weight n m idx =
     (if list_all (\<lambda>b. list_all (\<lambda>t. idx b t < length weight) [0..<m]) [0..<n]
      then Inr \<lparr>shape = [n, m, length (hd weight)],
                elem = (\<lambda>i. weight ! idx (i ! 0) (i ! 1) ! (i ! 2))\<rparr>
      else Inl IndexError)"

text \<open>
  What each layer does to a shape, and when it raises. \<open>Conv1d\<close> (stride 1) wants
  \<open>(batch, in, length)\<close>, the three axes it always meets in \<open>forward\<close>, and gives
  \<open>(batch, out, length + 2 * padding - kernel + 1)\<close>; \<open>BatchNorm1d\<close> wants two or three
  axes with the features second and, in training mode, more than one value per feature;
  \<open>Linear\<close> wants the last axis to be its input width.
\<close>

fun layer_shape :: "bool \<Rightarrow> layer \<Rightarrow> nat list \<Rightarrow> error + nat list" where
  "layer_shape tr (Conv1d cin cout k p) s =
     (case s of
        [b, c, l] \<Rightarrow>
          if int c = cin \<and> k \<le> l + 2 * p
          then Inr [b, nat cout, l + 2 * p - k + 1] else Inl RuntimeError
      | _ \<Rightarrow> Inl RuntimeError)"
| "layer_shape tr (BatchNorm1d n) s =
     (if length s \<noteq> 2 \<and> length s \<noteq> 3 then Inl ValueError
      else if tr \<and> hd s * prod_list (drop 2 s) = 1 then Inl ValueError
      else if int (s ! 1) = n then Inr s else Inl RuntimeError)"
| "layer_shape tr ReLU s = Inr s"
| "layer_shape tr (Linear i out) s =
     (if s \<noteq> [] \<and> int (last s) = i then Inr (butlast s @ [nat out]) else Inl RuntimeError)"

text \<open>A \<open>Sequential\<close> applies its layers in order; with no layer it returns its input.\<close>

fun sequential :: "bool \<Rightarrow> layer list \<Rightarrow> nat list \<Rightarrow> error + nat list" where
  "sequential tr [] s = Inr s"
| "sequential tr (l # ls) s =
     (case layer_shape tr l s of Inl e \<Rightarrow> Inl e | Inr s' \<Rightarrow> sequential tr ls s')"

text \<open>\<open>permute(0, 2, 1)\<close> on three axes.\<close>

fun permute_021 :: "nat list \<Rightarrow> nat list" where
  "permute_021 [b, l, c] = [b, c, l]"
| "permute_021 s = s"

text \<open>
  \<open>out.view(out.shape[0], -1)\<close>. With no element in the batch the size \<open>-1\<close> cannot be
  inferred. A view needs compatible strides: the output of a layer has them, the
  permuted input itself (reached when there is no convolution) only if an axis it
  merges has size at most 1.
\<close>

definition view_flat :: "bool \<Rightarrow> nat list \<Rightarrow> error + nat list" where
  "view_flat fresh s =
     (case s of
        [b, c, l] \<Rightarrow>
          if b = 0 then Inl RuntimeError
          else if fresh \<or> c \<le> 1 \<or> l \<le> 1 then Inr [b, c * l] else Inl RuntimeError
      | _ \<Rightarrow> Inl RuntimeError)"

subsection \<open>\<open>TempConv.forward\<close>\<close>

definition bind :: "error + 'a \<Rightarrow> ('a \<Rightarrow> error + 'b) \<Rightarrow> error + 'b" where
  "bind r f = (case r of Inl e \<Rightarrow> Inl e | Inr x \<Rightarrow> f x)"

text \<open>
  Lines 101 to 106: the unpacking of the shape, which needs three axes, and the
  position encoding added to the input.
\<close>

definition enc_output :: "('s::plus) TempConv \<Rightarrow> 's tensor \<Rightarrow> error + 's tensor" where
  "enc_output self input =
     (case shape input of
        [sz_b, seq_len', c] \<Rightarrow>
          (case position_enc self of
             Some weight \<Rightarrow>
               bind (embedding weight sz_b seq_len' src_pos) (\<lambda>pe. tensor_add input pe)
           | None \<Rightarrow> Inr input)
      | _ \<Rightarrow> Inl ValueError)"

text \<open>Lines 108 to 112; the result is the shape of the returned tensor.\<close>

definition forward :: "('s::plus) TempConv \<Rightarrow> 's tensor \<Rightarrow> error + nat list" where
  "forward self input =
     bind (enc_output self input) (\<lambda>enc.
     bind (sequential (training self) (conv1d self) (permute_021 (shape enc))) (\<lambda>out.
     bind (view_flat (conv1d self \<noteq> []) out) (\<lambda>out.
     bind (sequential (training self) (linear' self) out) (\<lambda>out.
     sequential (training self) (decoder self) out))))"




text \<open>
  A module built and called at once, \<open>TempConv(...)(input)\<close>, and the tensor
  \<open>torch.zeros(shape)\<close>, for concrete runs.
\<close>

definition TempConv_call ::
  "('d::numeral, 's::plus) floats \<Rightarrow> heap \<Rightarrow> int \<Rightarrow> ref \<Rightarrow> int \<Rightarrow> ref option \<Rightarrow> int list
     \<Rightarrow> positions option \<Rightarrow> 's tensor \<Rightarrow> error + nat list" where
  "TempConv_call fl h input_size' nker' seq_len' nfc' mlp4 positions input =
     bind (TempConv_init fl h input_size' nker' seq_len' nfc' mlp4 positions)
          (\<lambda>(self, h'). forward self input)"

definition zeros :: "nat list \<Rightarrow> ('s::zero) tensor" where
  "zeros s = \<lparr>shape = s, elem = (\<lambda>i. 0)\<rparr>"

text \<open>
  An instance of the floating-point operations for concrete runs: the reals, without
  rounding, and the range of a double for the conversion of an integer.
\<close>

definition exact_floats :: "(real, real) floats" where
  "exact_floats =
     \<lparr>to_double = (\<lambda>n. if \<bar>n\<bar> < 2 ^ 1024 then Some (real_of_int n) else None),
      true_div = (\<lambda>a b. real_of_int a / real_of_int b),
      np_power = (\<lambda>x y. x powr y),
      np_divide = (\<lambda>x y. x / y),
      np_sin = sin, np_cos = cos,
      narrow = (\<lambda>x. x)\<rparr>"

subsection \<open>Closed forms\<close>

text \<open>
  What the statements below compare the loops with: the layers one pass of the decoder
  loop appends; the angle of a converted position \<open>x\<close> at column \<open>j\<close>; the stacks as one
  triple per adjacent pair of widths; and the module and the store that a construction
  with a list \<open>nfc\<close> returns.
\<close>

definition decoder_step :: "int list \<Rightarrow> nat \<Rightarrow> layer list" where
  "decoder_step n_neurons i =
     Linear (n_neurons ! i) (n_neurons ! (i + 1)) #
     (if int i < int (length n_neurons) - 2
      then [BatchNorm1d (n_neurons ! (i + 1)), ReLU] else [])"

definition angle :: "('d, 's) floats \<Rightarrow> 'd \<Rightarrow> int \<Rightarrow> 'd \<Rightarrow> nat \<Rightarrow> 'd" where
  "angle fl T d_hid x j = np_divide fl x (np_power fl T (true_div fl (2 * int (j div 2)) d_hid))"

definition conv_stack :: "int list \<Rightarrow> layer list" where
  "conv_stack ws = concat (map (\<lambda>(a, b). [Conv1d a b 3 1, BatchNorm1d b, ReLU]) (zip ws (tl ws)))"

definition fc_stack :: "int list \<Rightarrow> layer list" where
  "fc_stack ws = concat (map (\<lambda>(a, b). [Linear a b, BatchNorm1d b, ReLU]) (zip ws (tl ws)))"

definition built ::
  "heap \<Rightarrow> int \<Rightarrow> ref \<Rightarrow> int \<Rightarrow> ref \<Rightarrow> int list \<Rightarrow> 's list list option \<Rightarrow> 's TempConv" where
  "built h isz rk sl rf mlp4 pe =
     \<lparr>input_size = isz, seq_len = sl,
      name = ''TempCNN_'' @ join ''|'' (map str (h ! rk)) @ ''FC'' @ join ''|'' (map str (h ! rf)),
      nker = length h, nfc = Some (Suc (length h)),
      decoder = get_decoder mlp4,
      conv1d = conv_stack (isz # h ! rk),
      linear' = fc_stack ((last (isz # h ! rk) * sl) # h ! rf),
      position_enc = pe, training = True\<rparr>"

definition built_heap :: "heap \<Rightarrow> int \<Rightarrow> ref \<Rightarrow> int \<Rightarrow> ref \<Rightarrow> heap" where
  "built_heap h isz rk sl rf = h @ [isz # h ! rk, (last (isz # h ! rk) * sl) # h ! rf]"

section \<open>Properties\<close>

subsection \<open>The decoder\<close>

lemma get_decoder_loop_concat:
  "get_decoder_loop ns is acc = acc @ concat (map (decoder_step ns) is)"
  by (induction "is" arbitrary: acc) (simp_all add: decoder_step_def Let_def)

lemma get_decoder_concat:
  "get_decoder ns = concat (map (decoder_step ns) [0..<length ns - 1])"
proof -
  have "nat (int (length ns) - 1) = length ns - 1" by simp
  then show ?thesis
    by (simp add: get_decoder_def py_range_def get_decoder_loop_concat)
qed

lemma get_decoder_closed:
  assumes "2 \<le> length ns"
  shows "get_decoder ns =
     concat (map (\<lambda>i. [Linear (ns ! i) (ns ! (i + 1)), BatchNorm1d (ns ! (i + 1)), ReLU])
               [0..<length ns - 2])
     @ [Linear (ns ! (length ns - 2)) (ns ! (length ns - 1))]"
proof -
  from assms obtain n where n: "length ns = Suc (Suc n)"
    by (metis Suc_le_D Suc_le_mono numeral_2_eq_2)
  have body: "map (decoder_step ns) [0..<n] =
      map (\<lambda>i. [Linear (ns ! i) (ns ! (i + 1)), BatchNorm1d (ns ! (i + 1)), ReLU]) [0..<n]"
    by (rule map_cong) (auto simp: decoder_step_def n)
  have lst: "decoder_step ns n = [Linear (ns ! n) (ns ! Suc n)]"
    by (simp add: decoder_step_def n)
  show ?thesis
    by (simp add: get_decoder_concat n body lst)
qed

lemma concat_triples_length:
  "length (concat (map (\<lambda>i. [f i, g i, h i]) [0..<n])) = 3 * n"
  by (induction n) simp_all

lemma concat_triples_nth:
  "i < n \<Longrightarrow>
     (concat (map (\<lambda>i. [f i, g i, h i]) [0..<n]) @ rest) ! (3 * i) = f i \<and>
     (concat (map (\<lambda>i. [f i, g i, h i]) [0..<n]) @ rest) ! (3 * i + 1) = g i \<and>
     (concat (map (\<lambda>i. [f i, g i, h i]) [0..<n]) @ rest) ! (3 * i + 2) = h i"
proof (induction n arbitrary: rest)
  case 0
  then show ?case by simp
next
  case (Suc n)
  show ?case
  proof (cases "i = n")
    case True
    then show ?thesis
      by (simp add: nth_append concat_triples_length)
  next
    case False
    with Suc.prems have "i < n" by simp
    from Suc.IH[OF this, of "[f n, g n, h n] @ rest"] show ?thesis by simp
  qed
qed

lemma filter_Linear_triples:
  "filter is_Linear (concat (map (\<lambda>i. [Linear (a i) (b i), BatchNorm1d (c i), ReLU]) xs))
     = map (\<lambda>i. Linear (a i) (b i)) xs"
  by (induction xs) simp_all

text \<open>
  Claim C2. For a width list of length \<open>L \<ge> 2\<close>, \<open>get_decoder\<close> returns \<open>3 * (L - 2) + 1\<close>
  layers; its linear layers are, in order, the \<open>L - 1\<close> transforms from width \<open>i\<close> to
  width \<open>i + 1\<close>; for \<open>i < L - 2\<close> the \<open>i\<close>-th transform stands at position \<open>3 * i\<close> and
  is immediately followed by the normalisation over its output width and the \<open>ReLU\<close>;
  the final transform is the last layer of the sequence, so nothing follows it.
\<close>

theorem get_decoder_structure:
  assumes "2 \<le> length n_neurons"
  shows "length (get_decoder n_neurons) = 3 * (length n_neurons - 2) + 1
     \<and> filter is_Linear (get_decoder n_neurons)
         = map (\<lambda>i. Linear (n_neurons ! i) (n_neurons ! (i + 1))) [0..<length n_neurons - 1]
     \<and> (\<forall>i<length n_neurons - 2.
          get_decoder n_neurons ! (3 * i) = Linear (n_neurons ! i) (n_neurons ! (i + 1)) \<and>
          get_decoder n_neurons ! (3 * i + 1) = BatchNorm1d (n_neurons ! (i + 1)) \<and>
          get_decoder n_neurons ! (3 * i + 2) = ReLU)
     \<and> last (get_decoder n_neurons)
         = Linear (n_neurons ! (length n_neurons - 2)) (n_neurons ! (length n_neurons - 1))"
proof -
  from assms obtain n where n: "length n_neurons = Suc (Suc n)"
    by (metis Suc_le_D Suc_le_mono numeral_2_eq_2)
  note cl = get_decoder_closed[OF assms]
  have len: "length (get_decoder n_neurons) = 3 * (length n_neurons - 2) + 1"
    by (simp add: cl concat_triples_length)
  have fil: "filter is_Linear (get_decoder n_neurons)
         = map (\<lambda>i. Linear (n_neurons ! i) (n_neurons ! (i + 1))) [0..<length n_neurons - 1]"
    by (simp add: cl filter_Linear_triples n)
  have nth: "\<forall>i<length n_neurons - 2.
          get_decoder n_neurons ! (3 * i) = Linear (n_neurons ! i) (n_neurons ! (i + 1)) \<and>
          get_decoder n_neurons ! (3 * i + 1) = BatchNorm1d (n_neurons ! (i + 1)) \<and>
          get_decoder n_neurons ! (3 * i + 2) = ReLU"
  proof (intro allI impI)
    fix i assume i: "i < length n_neurons - 2"
    from concat_triples_nth[OF i,
        of "\<lambda>i. Linear (n_neurons ! i) (n_neurons ! (i + 1))"
           "\<lambda>i. BatchNorm1d (n_neurons ! (i + 1))" "\<lambda>i. ReLU"
           "[Linear (n_neurons ! (length n_neurons - 2)) (n_neurons ! (length n_neurons - 1))]"]
    show "get_decoder n_neurons ! (3 * i) = Linear (n_neurons ! i) (n_neurons ! (i + 1)) \<and>
          get_decoder n_neurons ! (3 * i + 1) = BatchNorm1d (n_neurons ! (i + 1)) \<and>
          get_decoder n_neurons ! (3 * i + 2) = ReLU"
      by (simp only: cl)
  qed
  have lst: "last (get_decoder n_neurons)
         = Linear (n_neurons ! (length n_neurons - 2)) (n_neurons ! (length n_neurons - 1))"
    by (simp add: cl)
  from len fil nth lst show ?thesis by blast
qed

theorem get_decoder_structure_witness:
  "2 \<le> length [32, 10, 3 :: int]
   \<and> length (get_decoder [32, 10, 3]) = 4
   \<and> filter is_Linear (get_decoder [32, 10, 3]) = [Linear 32 10, Linear 10 3]
   \<and> get_decoder [32, 10, 3] ! 0 = Linear 32 10
   \<and> get_decoder [32, 10, 3] ! 1 = BatchNorm1d 10
   \<and> get_decoder [32, 10, 3] ! 2 = ReLU
   \<and> last (get_decoder [32, 10, 3]) = Linear 10 3"
proof -
  have h: "2 \<le> length [32, 10, 3 :: int]" by simp
  have u: "[0..<2] = [0, Suc 0]" by (simp add: upt_conv_Cons)
  from get_decoder_structure[OF h] show ?thesis by (simp add: u numeral_2_eq_2)
qed

subsection \<open>The position-encoding table\<close>

lemma assign_cols_length: "length (assign_cols s f table) = length table"
  by (simp add: assign_cols_def)

lemma assign_cols_row_length:
  "p < length table \<Longrightarrow> length (assign_cols s f table ! p) = length (table ! p)"
  by (simp add: assign_cols_def)

lemma assign_cols_nth:
  "p < length table \<Longrightarrow> j < length (table ! p) \<Longrightarrow>
     assign_cols s f table ! p ! j =
       (if s \<le> j \<and> even (j - s) then f (table ! p ! j) else table ! p ! j)"
  by (simp add: assign_cols_def del: even_diff_nat)

lemma assign_cols_Nil: "assign_cols s f table = [] \<longleftrightarrow> table = []"
  by (simp add: assign_cols_def)

lemma sin_cos_cols:
  assumes "p < length table" "j < length (table ! p)"
  shows "assign_cols (Suc 0) c (assign_cols 0 s table) ! p ! j =
           (if even j then s (table ! p ! j) else c (table ! p ! j))"
proof -
  have odd: "Suc 0 \<le> j \<and> even (j - Suc 0) \<longleftrightarrow> odd j"
    by (cases j) auto
  from assms have "assign_cols (Suc 0) c (assign_cols 0 s table) ! p ! j =
      (if Suc 0 \<le> j \<and> even (j - Suc 0) then c (assign_cols 0 s table ! p ! j)
       else assign_cols 0 s table ! p ! j)"
    by (simp add: assign_cols_nth assign_cols_length assign_cols_row_length del: even_diff_nat)
  also from assms have "assign_cols 0 s table ! p ! j =
      (if even j then s (table ! p ! j) else table ! p ! j)"
    by (simp add: assign_cols_nth del: even_diff_nat)
  finally show ?thesis
    unfolding odd by simp
qed

lemma collect_map_Inr: "collect (map Inr xs) = Inr xs"
  by (induction xs) simp_all

lemma collect_Inr_D: "collect rs = Inr xs \<Longrightarrow> rs = map Inr xs"
  by (induction rs arbitrary: xs) (auto split: sum.splits)

lemma collect_Inr: "collect rs = Inr xs \<longleftrightarrow> rs = map Inr xs"
  using collect_map_Inr collect_Inr_D by blast

lemma collect_Inl:
  assumes "\<forall>r \<in> set rs. \<forall>e'. r = Inl e' \<longrightarrow> e' = e" and "\<exists>r \<in> set rs. isl r"
  shows "collect rs = Inl e"
  using assms
proof (induction rs)
  case Nil
  then show ?case by simp
next
  case (Cons r rs)
  show ?case
  proof (cases r)
    case (Inl e')
    with Cons.prems(1) show ?thesis by simp
  next
    case (Inr x)
    with Cons.prems have "\<exists>r \<in> set rs. isl r" by auto
    with Cons.IH Cons.prems(1) have "collect rs = Inl e" by simp
    with Inr show ?thesis by simp
  qed
qed

lemma cal_angle_cases:
  "cal_angle fl T d_hid pos j =
     (case to_double fl pos of
        None \<Rightarrow> Inl OverflowError
      | Some x \<Rightarrow> Inr (angle fl T d_hid x j))"
  by (simp add: cal_angle_def angle_def Let_def split: option.splits)

lemma angle_vec_Some:
  "to_double fl pos = Some x \<Longrightarrow>
   get_posi_angle_vec fl T d_hid pos = Inr (map (angle fl T d_hid x) [0..<nat d_hid])"
  by (simp add: get_posi_angle_vec_def collect_Inr cal_angle_cases py_range_def)

lemma angle_vec_empty:
  "d_hid \<le> 0 \<Longrightarrow> get_posi_angle_vec fl T d_hid pos = Inr []"
  by (simp add: get_posi_angle_vec_def py_range_def)

lemma angle_vec_None:
  "to_double fl pos = None \<Longrightarrow> 0 < d_hid \<Longrightarrow>
   get_posi_angle_vec fl T d_hid pos = Inl OverflowError"
proof -
  assume n: "to_double fl pos = None" and d: "0 < d_hid"
  from d have "0 \<in> set (py_range d_hid)" by (simp add: py_range_def)
  then have "\<exists>r \<in> set (map (cal_angle fl T d_hid pos) (py_range d_hid)). isl r"
    using n by (auto simp: cal_angle_cases)
  moreover have "\<forall>r \<in> set (map (cal_angle fl T d_hid pos) (py_range d_hid)).
                   \<forall>e'. r = Inl e' \<longrightarrow> e' = OverflowError"
    using n by (auto simp: cal_angle_cases)
  ultimately show ?thesis
    unfolding get_posi_angle_vec_def by (rule collect_Inl[rotated])
qed

lemma angle_vec_errors:
  "get_posi_angle_vec fl T d_hid pos = Inl e \<Longrightarrow> e = OverflowError"
proof (cases "to_double fl pos")
  case None
  then show "get_posi_angle_vec fl T d_hid pos = Inl e \<Longrightarrow> e = OverflowError"
    by (cases "0 < d_hid") (simp_all add: angle_vec_None angle_vec_empty)
next
  case (Some x)
  then show "get_posi_angle_vec fl T d_hid pos = Inl e \<Longrightarrow> e = OverflowError"
    by (simp add: angle_vec_Some)
qed

lemma angle_vec_Inr_length:
  "get_posi_angle_vec fl T d_hid pos = Inr row \<Longrightarrow> length row = nat d_hid"
  by (auto simp: get_posi_angle_vec_def collect_Inr py_range_def dest: arg_cong[where f = length])

lemma table_Inr:
  assumes "positions_list positions \<noteq> []"
      and "\<forall>pos \<in> set (positions_list positions). to_double fl pos \<noteq> None"
  shows "get_sinusoid_encoding_table fl positions d_hid T =
     Inr (map (map (narrow fl)) (assign_cols 1 (np_cos fl) (assign_cols 0 (np_sin fl)
            (map (\<lambda>pos. map (angle fl T d_hid (the (to_double fl pos))) [0..<nat d_hid])
                 (positions_list positions)))))"
proof -
  have "collect (map (get_posi_angle_vec fl T d_hid) (positions_list positions))
          = Inr (map (\<lambda>pos. map (angle fl T d_hid (the (to_double fl pos))) [0..<nat d_hid])
                 (positions_list positions))"
    using assms(2) by (auto simp: collect_Inr angle_vec_Some)
  with assms(1) show ?thesis
    by (simp add: get_sinusoid_encoding_table_def Let_def)
qed

lemma table_overflow:
  assumes "0 < d_hid" and "pos \<in> set (positions_list positions)" and "to_double fl pos = None"
  shows "get_sinusoid_encoding_table fl positions d_hid T = Inl OverflowError"
proof -
  have "collect (map (get_posi_angle_vec fl T d_hid) (positions_list positions))
          = Inl OverflowError"
  proof (rule collect_Inl)
    show "\<forall>r\<in>set (map (get_posi_angle_vec fl T d_hid) (positions_list positions)).
            \<forall>e'. r = Inl e' \<longrightarrow> e' = OverflowError"
      by (auto dest: angle_vec_errors)
    show "\<exists>r\<in>set (map (get_posi_angle_vec fl T d_hid) (positions_list positions)). isl r"
      using assms angle_vec_None[of fl pos d_hid T] by force
  qed
  then show ?thesis by (simp add: get_sinusoid_encoding_table_def Let_def)
qed

lemma table_empty:
  "positions_list positions = [] \<Longrightarrow>
   get_sinusoid_encoding_table fl positions d_hid T = Inl IndexError"
  by (simp add: get_sinusoid_encoding_table_def Let_def)

lemma table_shape:
  assumes "get_sinusoid_encoding_table fl positions d_hid T = Inr table"
  shows "length table = length (positions_list positions) \<and> table \<noteq> [] \<and>
         (\<forall>p<length table. length (table ! p) = nat d_hid)"
proof -
  from assms obtain st where
    c: "collect (map (get_posi_angle_vec fl T d_hid) (positions_list positions)) = Inr st"
    and ne: "st \<noteq> []"
    and t: "table = map (map (narrow fl))
                      (assign_cols 1 (np_cos fl) (assign_cols 0 (np_sin fl) st))"
    by (auto simp: get_sinusoid_encoding_table_def Let_def split: sum.splits if_splits)
  from c have m: "map (get_posi_angle_vec fl T d_hid) (positions_list positions) = map Inr st"
    by (simp add: collect_Inr)
  then have len: "length st = length (positions_list positions)"
    by (metis length_map)
  have row: "length (st ! p) = nat d_hid" if "p < length st" for p
  proof -
    from m that len have "get_posi_angle_vec fl T d_hid (positions_list positions ! p) = Inr (st ! p)"
      by (metis nth_map)
    then show ?thesis by (rule angle_vec_Inr_length)
  qed
  show ?thesis
    using ne len row
    by (simp add: t assign_cols_length assign_cols_row_length assign_cols_Nil)
qed

lemma table_width:
  assumes "get_sinusoid_encoding_table fl positions d_hid T = Inr table"
  shows "length (hd table) = nat d_hid"
proof -
  from table_shape[OF assms] have ne: "table \<noteq> []" by blast
  from table_shape[OF assms] have all: "\<forall>p<length table. length (table ! p) = nat d_hid"
    by blast
  from ne have "0 < length table" by simp
  with all have "length (table ! 0) = nat d_hid" by blast
  with ne show ?thesis by (simp add: hd_conv_nth)
qed

lemma table_entry:
  assumes "positions_list positions \<noteq> []"
      and "\<forall>pos \<in> set (positions_list positions). to_double fl pos \<noteq> None"
      and "get_sinusoid_encoding_table fl positions d_hid T = Inr table"
      and "p < length table" "j < nat d_hid"
  shows "table ! p ! j =
     narrow fl ((if even j then np_sin fl else np_cos fl)
                  (angle fl T d_hid (the (to_double fl (positions_list positions ! p))) j))"
proof -
  from assms(3) table_Inr[OF assms(1,2)] have
    t: "table = map (map (narrow fl)) (assign_cols 1 (np_cos fl) (assign_cols 0 (np_sin fl)
            (map (\<lambda>pos. map (angle fl T d_hid (the (to_double fl pos))) [0..<nat d_hid])
                 (positions_list positions))))" by simp
  from assms(4) have p: "p < length (positions_list positions)"
    by (simp add: t assign_cols_length)
  show ?thesis
    unfolding t using p assms(5)
    by (simp add: sin_cos_cols assign_cols_length assign_cols_row_length)
qed

lemma exact_to_double:
  "\<bar>n\<bar> < 2 ^ 1024 \<Longrightarrow> to_double exact_floats n = Some (real_of_int n)"
  by (simp add: exact_floats_def)

lemma exact_to_double_small:
  "\<bar>n\<bar> \<le> 1000000 \<Longrightarrow> to_double exact_floats n = Some (real_of_int n)"
proof -
  assume "\<bar>n\<bar> \<le> 1000000"
  moreover have "(1000000::int) < 2 ^ 1024" by simp
  ultimately have "\<bar>n\<bar> < 2 ^ 1024" by (rule le_less_trans)
  then show ?thesis by (rule exact_to_double)
qed

text \<open>
  Claim C1, amended. The floating-point operations of line 20 and the narrowing to single
  precision of line 33 are parameters \<open>fl\<close>. For a positive \<open>d_hid\<close>: if some position cannot
  be converted to a double the call raises \<open>OverflowError\<close>; if there is no position it
  raises \<open>IndexError\<close>; otherwise (a non-empty \<open>positions\<close> argument, an integer \<open>n \<ge> 1\<close>
  standing for the positions \<open>0..n-1\<close> or a non-empty list, all convertible) it returns a
  table with one row per position and \<open>d_hid\<close> columns, whose entry at row \<open>p\<close> and column \<open>j\<close>
  is the single-precision narrowing of the floating-point sine (even \<open>j\<close>) or cosine (odd
  \<open>j\<close>) of the floating-point quotient of \<open>pos_p\<close>, converted to a double, by the
  floating-point power \<open>T ** (2*(j//2)/d_hid)\<close>. When the operations are exact at 0 and 1
  the row of a position 0 alternates 0 and 1.
\<close>

theorem sinusoid_table_entries:
  fixes fl :: "('d::{zero,one}, 's::{zero,one}) floats"
  assumes "0 < d_hid"
  shows "((\<exists>pos \<in> set (positions_list positions). to_double fl pos = None) \<longrightarrow>
            get_sinusoid_encoding_table fl positions d_hid T = Inl OverflowError)
     \<and> (positions_list positions = [] \<longrightarrow>
            get_sinusoid_encoding_table fl positions d_hid T = Inl IndexError)
     \<and> (positions_list positions \<noteq> []
          \<and> (\<forall>pos \<in> set (positions_list positions). to_double fl pos \<noteq> None) \<longrightarrow>
          (\<exists>table. get_sinusoid_encoding_table fl positions d_hid T = Inr table
             \<and> length table = length (positions_list positions)
             \<and> (\<forall>n. positions = PInt n \<longrightarrow>
                    length table = nat n \<and> (\<forall>p<nat n. positions_list positions ! p = int p))
             \<and> (\<forall>p<length table.
                  length (table ! p) = nat d_hid
                  \<and> (\<exists>x. to_double fl (positions_list positions ! p) = Some x
                       \<and> (\<forall>j<nat d_hid.
                             table ! p ! j =
                               narrow fl
                                 ((if even j then np_sin fl else np_cos fl)
                                    (np_divide fl x
                                       (np_power fl T
                                          (true_div fl (2 * int (j div 2)) d_hid)))))))
             \<and> (to_double fl 0 = Some 0 \<and> (\<forall>y. np_divide fl 0 (np_power fl T y) = 0)
                  \<and> np_sin fl 0 = 0 \<and> np_cos fl 0 = 1 \<and> narrow fl 0 = 0 \<and> narrow fl 1 = 1 \<longrightarrow>
                  (\<forall>p<length table. positions_list positions ! p = 0 \<longrightarrow>
                     (\<forall>j<nat d_hid. table ! p ! j = (if even j then 0 else 1))))))"
proof -
  let ?ps = "positions_list positions"
  have A: "(\<exists>pos \<in> set ?ps. to_double fl pos = None) \<longrightarrow>
            get_sinusoid_encoding_table fl positions d_hid T = Inl OverflowError"
  proof
    assume "\<exists>pos \<in> set ?ps. to_double fl pos = None"
    then obtain pos where "pos \<in> set ?ps" and "to_double fl pos = None" by (rule bexE)
    with assms show "get_sinusoid_encoding_table fl positions d_hid T = Inl OverflowError"
      by (rule table_overflow)
  qed
  have B: "?ps = [] \<longrightarrow> get_sinusoid_encoding_table fl positions d_hid T = Inl IndexError"
    by (simp add: table_empty)
  have C: "\<exists>table. get_sinusoid_encoding_table fl positions d_hid T = Inr table
             \<and> length table = length ?ps
             \<and> (\<forall>n. positions = PInt n \<longrightarrow>
                    length table = nat n \<and> (\<forall>p<nat n. ?ps ! p = int p))
             \<and> (\<forall>p<length table.
                  length (table ! p) = nat d_hid
                  \<and> (\<exists>x. to_double fl (?ps ! p) = Some x
                       \<and> (\<forall>j<nat d_hid.
                             table ! p ! j =
                               narrow fl
                                 ((if even j then np_sin fl else np_cos fl)
                                    (np_divide fl x
                                       (np_power fl T
                                          (true_div fl (2 * int (j div 2)) d_hid)))))))
             \<and> (to_double fl 0 = Some 0 \<and> (\<forall>y. np_divide fl 0 (np_power fl T y) = 0)
                  \<and> np_sin fl 0 = 0 \<and> np_cos fl 0 = 1 \<and> narrow fl 0 = 0 \<and> narrow fl 1 = 1 \<longrightarrow>
                  (\<forall>p<length table. ?ps ! p = 0 \<longrightarrow>
                     (\<forall>j<nat d_hid. table ! p ! j = (if even j then 0 else 1))))"
    if ne: "?ps \<noteq> []" and cv: "\<forall>pos \<in> set ?ps. to_double fl pos \<noteq> None"
  proof -
    from table_Inr[OF ne cv] obtain table where
      t: "get_sinusoid_encoding_table fl positions d_hid T = Inr table" by blast
    note sh = table_shape[OF t]
    from sh have len: "length table = length ?ps" by blast
    have rng: "\<forall>n. positions = PInt n \<longrightarrow>
            length table = nat n \<and> (\<forall>p<nat n. ?ps ! p = int p)"
      using len by (auto simp: py_range_def)
    have ent: "\<exists>x. to_double fl (?ps ! p) = Some x
                 \<and> (\<forall>j<nat d_hid.
                       table ! p ! j =
                         narrow fl
                           ((if even j then np_sin fl else np_cos fl)
                              (np_divide fl x
                                 (np_power fl T (true_div fl (2 * int (j div 2)) d_hid)))))"
      if p: "p < length table" for p
    proof -
      from p len have "?ps ! p \<in> set ?ps" by simp
      with cv obtain x where x: "to_double fl (?ps ! p) = Some x" by auto
      have "\<forall>j<nat d_hid.
              table ! p ! j =
                narrow fl ((if even j then np_sin fl else np_cos fl)
                  (np_divide fl x (np_power fl T (true_div fl (2 * int (j div 2)) d_hid))))"
        using table_entry[OF ne cv t p] x by (simp add: angle_def)
      with x show ?thesis by blast
    qed
    have zero: "\<forall>p<length table. ?ps ! p = 0 \<longrightarrow>
                     (\<forall>j<nat d_hid. table ! p ! j = (if even j then 0 else 1))"
      if z: "to_double fl 0 = Some 0" "\<forall>y. np_divide fl 0 (np_power fl T y) = 0"
            "np_sin fl 0 = 0" "np_cos fl 0 = 1" "narrow fl 0 = 0" "narrow fl 1 = 1"
    proof (intro allI impI)
      fix p j assume p: "p < length table" and p0: "?ps ! p = 0" and j: "j < nat d_hid"
      from ent[OF p] p0 z(1) j
      have "table ! p ! j =
              narrow fl ((if even j then np_sin fl else np_cos fl)
                (np_divide fl 0 (np_power fl T (true_div fl (2 * int (j div 2)) d_hid))))"
        by auto
      with z show "table ! p ! j = (if even j then 0 else 1)" by simp
    qed
    from t len rng sh ent zero show ?thesis by blast
  qed
  from A B C show ?thesis by blast
qed

theorem sinusoid_table_entries_witness:
  "(0::int) < 2 \<and> positions_list (PInt 2) \<noteq> []
   \<and> to_double exact_floats 0 = Some 0 \<and> to_double exact_floats 1 = Some 1
   \<and> get_sinusoid_encoding_table exact_floats (PInt 2) 2 1000 = Inr [[0, 1], [sin 1, cos 1]]
   \<and> to_double exact_floats (2 ^ 1024) = None
   \<and> get_sinusoid_encoding_table exact_floats (PList [1, 2 ^ 1024]) 2 1000 = Inl OverflowError"
proof -
  have d: "(0::int) < 2" by simp
  have a: "to_double exact_floats 0 = Some 0 \<and> to_double exact_floats 1 = Some 1
           \<and> to_double exact_floats (2 ^ 1024) = None"
    by (simp add: exact_floats_def)
  from sinusoid_table_entries[OF d, of "PInt 2" exact_floats 1000]
  have t: "get_sinusoid_encoding_table exact_floats (PInt 2) 2 1000
             = Inr [[0, 1], [sin 1, cos 1]]"
    by (simp add: get_sinusoid_encoding_table_def py_range_def upt_rec
        get_posi_angle_vec_def cal_angle_def assign_cols_def exact_floats_def)
  from sinusoid_table_entries[OF d, of "PList [1, 2 ^ 1024]" exact_floats 1000] a
  have o: "get_sinusoid_encoding_table exact_floats (PList [1, 2 ^ 1024]) 2 1000
             = Inl OverflowError"
    by simp
  have "positions_list (PInt 2) \<noteq> []" by (simp add: py_range_def)
  with d a t o show ?thesis by blast
qed

text \<open>
  Claim C1 as stated covers every \<open>positions\<close> argument. With \<open>positions = 0\<close> (and a
  positive \<open>d_hid\<close> and \<open>T\<close>) no table is returned: the call raises \<open>IndexError\<close>.
\<close>

theorem sinusoid_table_empty_positions:
  "get_sinusoid_encoding_table exact_floats (PInt 0) 4 1000 = Inl IndexError"
  by (simp add: get_sinusoid_encoding_table_def py_range_def)

lemma exact_PInt_ok:
  assumes "0 < n" and "n \<le> 1000000"
  shows "positions_list (PInt n) \<noteq> []
     \<and> (\<forall>pos \<in> set (positions_list (PInt n)). to_double exact_floats pos \<noteq> None)"
proof
  from assms(1) show "positions_list (PInt n) \<noteq> []" by (simp add: py_range_def)
  show "\<forall>pos \<in> set (positions_list (PInt n)). to_double exact_floats pos \<noteq> None"
  proof
    fix pos assume "pos \<in> set (positions_list (PInt n))"
    then have "0 \<le> pos \<and> pos < n" by (auto simp: py_range_def)
    with assms(2) have "\<bar>pos\<bar> \<le> 1000000" by simp
    then show "to_double exact_floats pos \<noteq> None" by (simp add: exact_to_double_small)
  qed
qed

subsection \<open>The constructor\<close>

lemma conv_loop_concat:
  "conv_loop ws is acc =
     acc @ concat (map (\<lambda>i. [Conv1d (ws ! i) (ws ! (i + 1)) 3 1, BatchNorm1d (ws ! (i + 1)), ReLU]) is)"
  by (induction "is" arbitrary: acc) simp_all

lemma lin_loop_concat:
  "lin_loop ws is acc =
     acc @ concat (map (\<lambda>i. [Linear (ws ! i) (ws ! (i + 1)), BatchNorm1d (ws ! (i + 1)), ReLU]) is)"
  by (induction "is" arbitrary: acc) simp_all

lemma py_range_length: "py_range (int (length ws) - 1) = [0..<length ws - 1]"
proof -
  have "nat (int (length ws) - 1) = length ws - 1" by simp
  then show ?thesis by (simp add: py_range_def)
qed

lemma adjacent_pairs:
  "map (\<lambda>i. f (ws ! i) (ws ! (i + 1))) [0..<length ws - 1] = map (\<lambda>(a, b). f a b) (zip ws (tl ws))"
  by (rule nth_equalityI) (simp_all add: nth_tl)

lemma conv_loop_stack: "conv_loop ws (py_range (int (length ws) - 1)) [] = conv_stack ws"
  using adjacent_pairs[of "\<lambda>a b. [Conv1d a b 3 1, BatchNorm1d b, ReLU]" ws]
  by (simp add: conv_loop_concat py_range_length conv_stack_def)

lemma lin_loop_stack: "lin_loop ws (py_range (int (length ws) - 1)) [] = fc_stack ws"
  using adjacent_pairs[of "\<lambda>a b. [Linear a b, BatchNorm1d b, ReLU]" ws]
  by (simp add: lin_loop_concat py_range_length fc_stack_def)

lemma init_Some:
  assumes "rk < length h" "rf < length h"
  shows "TempConv_init fl h isz rk sl (Some rf) mlp4 positions =
     (case positions of
        None \<Rightarrow> Inr (built h isz rk sl rf mlp4 None, built_heap h isz rk sl rf)
      | Some p \<Rightarrow>
          (case get_sinusoid_encoding_table fl p isz 1000 of
             Inl e \<Rightarrow> Inl e
           | Inr table \<Rightarrow> Inr (built h isz rk sl rf mlp4 (Some table), built_heap h isz rk sl rf)))"
  using assms
  by (simp add: TempConv_init_def deepcopy_def insert0_def Let_def nth_append
      conv_loop_stack lin_loop_stack built_def built_heap_def list_update_append
      split: option.splits sum.splits)

lemma init_None: "TempConv_init fl h isz rk sl None mlp4 positions = Inl AttributeError"
  by (simp add: TempConv_init_def deepcopy_def Let_def)

lemmas init_eval = TempConv_init_def deepcopy_def insert0_def get_decoder_def py_range_def
  str_def str_nat.simps digit_char_def Let_def upt_rec

lemma init_Inr_cases:
  assumes "TempConv_init fl h isz rk sl nfc' mlp4 positions = Inr (self, h')"
      and "rk < length h" and "case nfc' of None \<Rightarrow> True | Some rf \<Rightarrow> rf < length h"
  obtains rf pe where "nfc' = Some rf" "rf < length h"
      "self = built h isz rk sl rf mlp4 pe" "h' = built_heap h isz rk sl rf"
      "case pe of None \<Rightarrow> positions = None
       | Some table \<Rightarrow> \<exists>p. positions = Some p \<and> get_sinusoid_encoding_table fl p isz 1000 = Inr table"
proof (cases nfc')
  case None
  with assms(1) show ?thesis by (simp add: init_None)
next
  case (Some rf)
  with assms(3) have rf: "rf < length h" by simp
  show ?thesis
  proof (cases positions)
    case None
    with assms(1) Some init_Some[OF assms(2) rf, of fl isz sl mlp4 positions]
    have "self = built h isz rk sl rf mlp4 None" "h' = built_heap h isz rk sl rf" by simp_all
    with that[of rf None] Some rf None show ?thesis by simp
  next
    case (Some p)
    note P = this
    with assms(1) \<open>nfc' = Some rf\<close> init_Some[OF assms(2) rf, of fl isz sl mlp4 positions]
    obtain table where "get_sinusoid_encoding_table fl p isz 1000 = Inr table"
      "self = built h isz rk sl rf mlp4 (Some table)" "h' = built_heap h isz rk sl rf"
      by (auto split: sum.splits)
    with that[of rf "Some table"] \<open>nfc' = Some rf\<close> rf P show ?thesis by simp
  qed
qed

lemma triples_length:
  "length (concat (map (\<lambda>(a, b). [f a b, g b, r]) xs)) = 3 * length xs"
  by (induction xs) auto


lemma init_builds:
  assumes "rk < length h" and "rf < length h"
      and "case positions of
             None \<Rightarrow> True
           | Some p \<Rightarrow> positions_list p \<noteq> []
                       \<and> (\<forall>pos \<in> set (positions_list p). to_double fl pos \<noteq> None)"
  shows "\<exists>pe. TempConv_init fl h isz rk sl (Some rf) mlp4 positions =
                 Inr (built h isz rk sl rf mlp4 pe, built_heap h isz rk sl rf)
            \<and> (case pe of
                  None \<Rightarrow> positions = None
                | Some table \<Rightarrow>
                    (\<exists>p. positions = Some p
                        \<and> get_sinusoid_encoding_table fl p isz 1000 = Inr table))"
proof (cases positions)
  case None
  with init_Some[OF assms(1,2), of fl isz sl mlp4 positions]
  have "TempConv_init fl h isz rk sl (Some rf) mlp4 positions =
          Inr (built h isz rk sl rf mlp4 None, built_heap h isz rk sl rf)" by simp
  with None show ?thesis by (intro exI[of _ None]) simp
next
  case (Some p)
  with assms(3) have ne: "positions_list p \<noteq> []"
    and cv: "\<forall>pos \<in> set (positions_list p). to_double fl pos \<noteq> None" by simp_all
  from table_Inr[OF ne cv] obtain table where
    t: "get_sinusoid_encoding_table fl p isz 1000 = Inr table" by blast
  with Some init_Some[OF assms(1,2), of fl isz sl mlp4 positions]
  have "TempConv_init fl h isz rk sl (Some rf) mlp4 positions =
          Inr (built h isz rk sl rf mlp4 (Some table), built_heap h isz rk sl rf)" by simp
  with Some t show ?thesis by (intro exI[of _ "Some table"]) simp
qed

text \<open>
  Claim C3. Construction returns a module whenever \<open>nfc\<close> is a list and \<open>positions\<close> is
  absent or a non-empty collection of positions that each convert to a double. In every
  module that construction returns, the convolution widths are \<open>nker\<close> prepended with
  \<open>input_size\<close>, and the convolution stack is one triple (convolution with kernel size 3
  and padding 1, normalisation over the output width, \<open>ReLU\<close>) per adjacent pair of
  widths; the fully-connected widths are \<open>nfc\<close> prepended with the last convolution width
  times \<open>seq_len\<close>, and the fully-connected stack is one triple (linear, normalisation,
  \<open>ReLU\<close>) per adjacent pair. No transform of either stack, the last one included, goes
  without its normalisation and \<open>ReLU\<close>. (The references \<open>rk\<close> and \<open>rf\<close> name existing list
  objects of the store.)
\<close>

theorem init_stacks:
  assumes "rk < length h" and "case nfc' of None \<Rightarrow> True | Some rf \<Rightarrow> rf < length h"
  shows "(nfc' \<noteq> None
          \<and> (case positions of
                None \<Rightarrow> True
              | Some p \<Rightarrow> positions_list p \<noteq> []
                          \<and> (\<forall>pos \<in> set (positions_list p). to_double fl pos \<noteq> None))
          \<longrightarrow> (\<exists>self h'.
                 TempConv_init fl h input_size' rk seq_len' nfc' mlp4 positions = Inr (self, h')))
     \<and> (\<forall>self h'.
          TempConv_init fl h input_size' rk seq_len' nfc' mlp4 positions = Inr (self, h') \<longrightarrow>
            h' ! nker self = input_size' # h ! rk
          \<and> conv1d self =
              concat (map (\<lambda>(a, b). [Conv1d a b 3 1, BatchNorm1d b, ReLU])
                        (zip (h' ! nker self) (tl (h' ! nker self))))
          \<and> length (conv1d self) = 3 * length (h ! rk)
          \<and> (\<exists>rf r'. nfc' = Some rf \<and> nfc self = Some r'
               \<and> h' ! r' = (last (h' ! nker self) * seq_len') # h ! rf
               \<and> linear' self =
                   concat (map (\<lambda>(a, b). [Linear a b, BatchNorm1d b, ReLU])
                             (zip (h' ! r') (tl (h' ! r'))))
               \<and> length (linear' self) = 3 * length (h ! rf)))"
proof (rule conjI)
  show "nfc' \<noteq> None
          \<and> (case positions of
                None \<Rightarrow> True
              | Some p \<Rightarrow> positions_list p \<noteq> []
                          \<and> (\<forall>pos \<in> set (positions_list p). to_double fl pos \<noteq> None))
          \<longrightarrow> (\<exists>self h'.
                 TempConv_init fl h input_size' rk seq_len' nfc' mlp4 positions = Inr (self, h'))"
  proof
  assume a: "nfc' \<noteq> None
          \<and> (case positions of
                None \<Rightarrow> True
              | Some p \<Rightarrow> positions_list p \<noteq> []
                          \<and> (\<forall>pos \<in> set (positions_list p). to_double fl pos \<noteq> None))"
  then obtain rf where rf: "nfc' = Some rf" by auto
  with assms(2) have "rf < length h" by simp
  from init_builds[OF assms(1) this, where positions = positions and fl = fl
      and isz = input_size' and sl = seq_len' and ?mlp4.0 = mlp4] a
  show "\<exists>self h'.
          TempConv_init fl h input_size' rk seq_len' nfc' mlp4 positions = Inr (self, h')"
    unfolding rf by blast
  qed
next
  show "\<forall>self h'.
          TempConv_init fl h input_size' rk seq_len' nfc' mlp4 positions = Inr (self, h') \<longrightarrow>
            h' ! nker self = input_size' # h ! rk
          \<and> conv1d self =
              concat (map (\<lambda>(a, b). [Conv1d a b 3 1, BatchNorm1d b, ReLU])
                        (zip (h' ! nker self) (tl (h' ! nker self))))
          \<and> length (conv1d self) = 3 * length (h ! rk)
          \<and> (\<exists>rf r'. nfc' = Some rf \<and> nfc self = Some r'
               \<and> h' ! r' = (last (h' ! nker self) * seq_len') # h ! rf
               \<and> linear' self =
                   concat (map (\<lambda>(a, b). [Linear a b, BatchNorm1d b, ReLU])
                             (zip (h' ! r') (tl (h' ! r'))))
               \<and> length (linear' self) = 3 * length (h ! rf))"
  proof (intro allI impI)
  fix self h'
  assume i: "TempConv_init fl h input_size' rk seq_len' nfc' mlp4 positions = Inr (self, h')"
  from i assms obtain rf pe where c: "nfc' = Some rf" "rf < length h"
      "self = built h input_size' rk seq_len' rf mlp4 pe"
      "h' = built_heap h input_size' rk seq_len' rf"
    by (rule init_Inr_cases) blast
  have k: "h' ! nker self = input_size' # h ! rk"
    by (simp add: c built_def built_heap_def nth_append)
  have f: "h' ! Suc (length h) = (last (h' ! nker self) * seq_len') # h ! rf"
    by (simp add: c built_def built_heap_def nth_append)
  have cs: "conv1d self = conv_stack (h' ! nker self)"
    by (simp add: k) (simp add: c built_def)
  have ls: "linear' self = fc_stack (h' ! Suc (length h))"
    by (simp add: f k) (simp add: c built_def)
  have lc: "length (conv1d self) = 3 * length (h ! rk)"
    by (simp add: cs k conv_stack_def triples_length)
  have ll: "length (linear' self) = 3 * length (h ! rf)"
    unfolding ls f by (simp add: fc_stack_def triples_length)
  have n: "nfc self = Some (Suc (length h))" by (simp add: c built_def)
  from k cs lc c(1) n f ls ll
  show "h' ! nker self = input_size' # h ! rk
          \<and> conv1d self =
              concat (map (\<lambda>(a, b). [Conv1d a b 3 1, BatchNorm1d b, ReLU])
                        (zip (h' ! nker self) (tl (h' ! nker self))))
          \<and> length (conv1d self) = 3 * length (h ! rk)
          \<and> (\<exists>rf r'. nfc' = Some rf \<and> nfc self = Some r'
               \<and> h' ! r' = (last (h' ! nker self) * seq_len') # h ! rf
               \<and> linear' self =
                   concat (map (\<lambda>(a, b). [Linear a b, BatchNorm1d b, ReLU])
                             (zip (h' ! r') (tl (h' ! r'))))
               \<and> length (linear' self) = 3 * length (h ! rf))"
    unfolding conv_stack_def fc_stack_def by blast
qed
qed

theorem init_stacks_witness:
  "(0::nat) < length [[8, 16], [32::int]] \<and> (1::nat) < length [[8, 16], [32::int]]
   \<and> TempConv_init exact_floats [[8, 16], [32]] 4 0 5 (Some 1) [32, 10, 3] None =
     Inr (\<lparr>input_size = 4, seq_len = 5, name = ''TempCNN_8|16FC32'', nker = 2, nfc = Some 3,
           decoder = [Linear 32 10, BatchNorm1d 10, ReLU, Linear 10 3],
           conv1d = [Conv1d 4 8 3 1, BatchNorm1d 8, ReLU, Conv1d 8 16 3 1, BatchNorm1d 16, ReLU],
           linear' = [Linear 80 32, BatchNorm1d 32, ReLU],
           position_enc = None, training = True\<rparr>,
          [[8, 16], [32], [4, 8, 16], [80, 32]])
   \<and> positions_list (PInt 6) = [0, 1, 2, 3, 4, 5]
   \<and> list_all (\<lambda>pos. to_double exact_floats pos \<noteq> None) (positions_list (PInt 6))
   \<and> (\<exists>self h'.
        TempConv_init exact_floats [[8, 16], [32]] 4 0 5 (Some 1) [32, 10, 3] (Some (PInt 6))
          = Inr (self, h')
        \<and> h' = [[8, 16], [32], [4, 8, 16], [80, 32]]
        \<and> conv1d self
            = [Conv1d 4 8 3 1, BatchNorm1d 8, ReLU, Conv1d 8 16 3 1, BatchNorm1d 16, ReLU]
        \<and> linear' self = [Linear 80 32, BatchNorm1d 32, ReLU])"
proof -
  have e: "TempConv_init exact_floats [[8, 16], [32]] 4 0 5 (Some 1) [32, 10, 3] None =
     Inr (\<lparr>input_size = 4, seq_len = 5, name = ''TempCNN_8|16FC32'', nker = 2, nfc = Some 3,
           decoder = [Linear 32 10, BatchNorm1d 10, ReLU, Linear 10 3],
           conv1d = [Conv1d 4 8 3 1, BatchNorm1d 8, ReLU, Conv1d 8 16 3 1, BatchNorm1d 16, ReLU],
           linear' = [Linear 80 32, BatchNorm1d 32, ReLU],
           position_enc = None, training = True\<rparr>,
          [[8, 16], [32], [4, 8, 16], [80, 32]])"
    by (simp add: init_eval)
  have p: "positions_list (PInt 6) = [0, 1, 2, 3, 4, 5]"
    by (simp add: py_range_def upt_rec)
  have q: "list_all (\<lambda>pos. to_double exact_floats pos \<noteq> None) (positions_list (PInt 6))"
    unfolding p by (simp add: exact_floats_def)
  have r: "(0::nat) < length [[8, 16], [32::int]]" "(1::nat) < length [[8, 16], [32::int]]"
    by simp_all
  note t = init_stacks[where rk = 0 and h = "[[8, 16], [32]]" and nfc' = "Some 1"
      and positions = "Some (PInt 6)" and fl = exact_floats and input_size' = 4
      and seq_len' = 5 and ?mlp4.0 = "[32, 10, 3]"]
  from t p q obtain self h' where
    i: "TempConv_init exact_floats [[8, 16], [32]] 4 0 5 (Some 1) [32, 10, 3] (Some (PInt 6))
          = Inr (self, h')"
    by (auto simp: list_all_iff)
  from t i have s: "h' ! nker self = 4 # [[8, 16], [32]] ! 0"
    "conv1d self =
       concat (map (\<lambda>(a, b). [Conv1d a b 3 1, BatchNorm1d b, ReLU])
                 (zip (h' ! nker self) (tl (h' ! nker self))))"
    "\<exists>r'. nfc self = Some r'
        \<and> h' ! r' = (last (h' ! nker self) * 5) # [[8, 16], [32]] ! 1
        \<and> linear' self =
            concat (map (\<lambda>(a, b). [Linear a b, BatchNorm1d b, ReLU])
                      (zip (h' ! r') (tl (h' ! r'))))"
    by auto
  from s(1,2) have c: "conv1d self
            = [Conv1d 4 8 3 1, BatchNorm1d 8, ReLU, Conv1d 8 16 3 1, BatchNorm1d 16, ReLU]"
    by simp
  from s(1,3) have l: "linear' self = [Linear 80 32, BatchNorm1d 32, ReLU]"
    by auto
  have hp: "h' = [[8, 16], [32], [4, 8, 16], [80, 32]]"
    using i init_Some[of 0 "[[8, 16], [32]]" 1 exact_floats 4 5 "[32, 10, 3]" "Some (PInt 6)"]
    by (auto simp: built_heap_def split: sum.splits)
  from e p q r i c l hp show ?thesis by blast
qed

text \<open>
  Claim C8. Construction leaves every list object that existed before it unchanged, the
  caller's \<open>nker\<close> and \<open>nfc\<close> among them; the module's own lists are fresh copies with
  exactly one width inserted at position 0; and the name is the prefix \<open>TempCNN_\<close>, the
  caller's \<open>nker\<close> values joined by \<open>|\<close>, and, when \<open>nfc\<close> is given, the marker \<open>FC\<close> and
  the caller's \<open>nfc\<close> values joined by \<open>|\<close>.
\<close>

theorem init_frame:
  assumes "TempConv_init fl h input_size' rk seq_len' nfc' mlp4 positions = Inr (self, h')"
      and "rk < length h" and "case nfc' of None \<Rightarrow> True | Some rf \<Rightarrow> rf < length h"
  shows "take (length h) h' = h
     \<and> h' ! rk = h ! rk
     \<and> (\<forall>rf. nfc' = Some rf \<longrightarrow> h' ! rf = h ! rf)
     \<and> length h \<le> nker self \<and> h' ! nker self = input_size' # h ! rk
     \<and> (\<exists>rf r' w. nfc' = Some rf \<and> nfc self = Some r' \<and> length h \<le> r' \<and> r' \<noteq> nker self
            \<and> h' ! r' = w # h ! rf)
     \<and> name self =
         ''TempCNN_'' @ join ''|'' (map str (h ! rk)) @
         (case nfc' of None \<Rightarrow> [] | Some rf \<Rightarrow> ''FC'' @ join ''|'' (map str (h ! rf)))"
proof -
  from assms obtain rf pe where c: "nfc' = Some rf" "rf < length h"
      "self = built h input_size' rk seq_len' rf mlp4 pe"
      "h' = built_heap h input_size' rk seq_len' rf"
    by (rule init_Inr_cases) blast
  have a: "take (length h) h' = h" by (simp add: c built_heap_def)
  have b: "h' ! rk = h ! rk" using assms(2) by (simp add: c built_heap_def nth_append)
  have d: "h' ! rf = h ! rf" using c(2) by (simp add: c built_heap_def nth_append)
  have e: "length h \<le> nker self \<and> h' ! nker self = input_size' # h ! rk"
    by (simp add: c built_def built_heap_def nth_append)
  have f: "nfc self = Some (Suc (length h)) \<and> length h \<le> Suc (length h)
       \<and> Suc (length h) \<noteq> nker self
       \<and> h' ! Suc (length h) = (last (input_size' # h ! rk) * seq_len') # h ! rf"
    by (simp add: c built_def built_heap_def nth_append)
  have g: "name self =
         ''TempCNN_'' @ join ''|'' (map str (h ! rk)) @
         (case nfc' of None \<Rightarrow> [] | Some rf \<Rightarrow> ''FC'' @ join ''|'' (map str (h ! rf)))"
    by (simp add: c built_def)
  from a b d e f g c(1) show ?thesis by blast
qed

theorem init_frame_witness:
  "TempConv_init exact_floats [[8, 16], [32]] 4 0 5 (Some 1) [32, 10, 3] None =
     Inr (\<lparr>input_size = 4, seq_len = 5, name = ''TempCNN_8|16FC32'', nker = 2, nfc = Some 3,
           decoder = [Linear 32 10, BatchNorm1d 10, ReLU, Linear 10 3],
           conv1d = [Conv1d 4 8 3 1, BatchNorm1d 8, ReLU, Conv1d 8 16 3 1, BatchNorm1d 16, ReLU],
           linear' = [Linear 80 32, BatchNorm1d 32, ReLU],
           position_enc = None, training = True\<rparr>,
          [[8, 16], [32], [4, 8, 16], [80, 32]])
   \<and> (0::nat) < length [[8, 16], [32::int]] \<and> (1::nat) < length [[8, 16], [32::int]]
   \<and> take 2 [[8, 16], [32], [4, 8, 16], [80, 32::int]] = [[8, 16], [32]]
   \<and> ''TempCNN_8|16FC32'' = ''TempCNN_'' @ join ''|'' (map str [8, 16]) @ ''FC'' @ join ''|'' (map str [32])"
proof -
  have e: "TempConv_init exact_floats [[8, 16], [32]] 4 0 5 (Some 1) [32, 10, 3] None =
     Inr (\<lparr>input_size = 4, seq_len = 5, name = ''TempCNN_8|16FC32'', nker = 2, nfc = Some 3,
           decoder = [Linear 32 10, BatchNorm1d 10, ReLU, Linear 10 3],
           conv1d = [Conv1d 4 8 3 1, BatchNorm1d 8, ReLU, Conv1d 8 16 3 1, BatchNorm1d 16, ReLU],
           linear' = [Linear 80 32, BatchNorm1d 32, ReLU],
           position_enc = None, training = True\<rparr>,
          [[8, 16], [32], [4, 8, 16], [80, 32]])"
    by (simp add: init_eval)
  from init_frame[OF e] e show ?thesis by simp
qed

text \<open>
  Claim C9 says that construction succeeds when \<open>nfc\<close> is empty or absent. The source
  guards the name against \<open>nfc = None\<close> (line 69) but then calls \<open>self.nfc.insert\<close> on it
  (line 83): with \<open>nfc = None\<close> every construction raises \<open>AttributeError\<close>.
\<close>

theorem init_nfc_None:
  "TempConv_init fl h input_size' rk seq_len' None mlp4 positions = Inl AttributeError"
  by (rule init_None)

text \<open>
  With an empty list \<open>nfc\<close> the claim holds: the width list is the single flattened
  width, the fully-connected stack has no layer, and it returns its input unchanged.
\<close>

lemma init_nfc_empty:
  assumes "rk < length h" "rf < length h" "h ! rf = []"
  shows "TempConv_init fl h input_size' rk seq_len' (Some rf) mlp4 None =
           Inr (built h input_size' rk seq_len' rf mlp4 None,
                built_heap h input_size' rk seq_len' rf)
       \<and> built_heap h input_size' rk seq_len' rf ! Suc (length h)
           = [last (input_size' # h ! rk) * seq_len']
       \<and> linear' (built h input_size' rk seq_len' rf mlp4 None) = []
       \<and> sequential tr (linear' (built h input_size' rk seq_len' rf mlp4 None)) s = Inr s"
  using assms
  by (simp add: init_Some built_def built_heap_def fc_stack_def nth_append)

text \<open>
  Claim C6 says that construction raises on an invalid configuration: an empty \<open>nker\<close>,
  a non-positive width, a decoder list shorter than 2. The constructor checks nothing:
  with an empty \<open>nker\<close> and a decoder list of length 1 it returns a module whose
  convolution stack and decoder are empty, and with a decoder width of 0 it returns a
  module whose decoder is a linear layer of output width 0.
\<close>

theorem init_accepts_degenerate_lists:
  "TempConv_init exact_floats [[], [32]] 4 0 5 (Some 1) [3] None =
     Inr (\<lparr>input_size = 4, seq_len = 5, name = ''TempCNN_FC32'', nker = 2, nfc = Some 3,
           decoder = [], conv1d = [],
           linear' = [Linear 20 32, BatchNorm1d 32, ReLU],
           position_enc = None, training = True\<rparr>,
          [[], [32], [4], [20, 32]])
   \<and> TempConv_init exact_floats [[8, 16], [32]] 4 0 5 (Some 1) [32, 0] None =
     Inr (\<lparr>input_size = 4, seq_len = 5, name = ''TempCNN_8|16FC32'', nker = 2, nfc = Some 3,
           decoder = [Linear 32 0],
           conv1d = [Conv1d 4 8 3 1, BatchNorm1d 8, ReLU, Conv1d 8 16 3 1, BatchNorm1d 16, ReLU],
           linear' = [Linear 80 32, BatchNorm1d 32, ReLU],
           position_enc = None, training = True\<rparr>,
          [[8, 16], [32], [4, 8, 16], [80, 32]])"
  by (simp add: init_eval)

text \<open>
  Claim C6, amended. The constructor validates nothing itself. With \<open>nfc\<close> a list,
  \<open>positions\<close> absent or a non-empty collection of positions that each convert to a double,
  and widths that are positive except that the last decoder width may be 0, construction
  succeeds: also when \<open>nker\<close> is empty (the convolution stack is then empty and the first
  fully-connected width is \<open>input_size * seq_len\<close>), when \<open>mlp4\<close> has fewer than two entries
  (the decoder is then empty), and when the last decoder width is 0 (the last linear
  layer then has output width 0). A position table is always built with \<open>input_size\<close>
  columns, so its width cannot differ from \<open>input_size\<close>. Negative widths are outside this
  statement.
\<close>

theorem init_no_validation:
  assumes "rk < length h" and "rf < length h"
      and "0 < input_size'" and "0 < seq_len'"
      and "\<forall>w \<in> set (h ! rk) \<union> set (h ! rf) \<union> set (butlast mlp4). 0 < w"
      and "\<forall>w \<in> set mlp4. 0 \<le> w"
      and "case positions of
             None \<Rightarrow> True
           | Some p \<Rightarrow> positions_list p \<noteq> []
                       \<and> (\<forall>pos \<in> set (positions_list p). to_double fl pos \<noteq> None)"
  shows "\<exists>self h'.
       TempConv_init fl h input_size' rk seq_len' (Some rf) mlp4 positions = Inr (self, h')
     \<and> (h ! rk = [] \<longrightarrow>
          conv1d self = [] \<and>
          linear' self =
            concat (map (\<lambda>(a, b). [Linear a b, BatchNorm1d b, ReLU])
                      (zip ((input_size' * seq_len') # h ! rf) (h ! rf))))
     \<and> (length mlp4 < 2 \<longrightarrow> decoder self = [])
     \<and> (\<forall>a. mlp4 = [a, 0] \<longrightarrow> decoder self = [Linear a 0])
     \<and> (case position_enc self of
            None \<Rightarrow> positions = None
          | Some table \<Rightarrow> positions \<noteq> None \<and> (\<forall>row \<in> set table. int (length row) = input_size'))"
proof -
  from init_builds[OF assms(1,2,7), of input_size' seq_len' mlp4] obtain pe where
    i: "TempConv_init fl h input_size' rk seq_len' (Some rf) mlp4 positions
      = Inr (built h input_size' rk seq_len' rf mlp4 pe, built_heap h input_size' rk seq_len' rf)"
    and pe: "case pe of
               None \<Rightarrow> positions = None
             | Some table \<Rightarrow>
                 (\<exists>p. positions = Some p
                     \<and> get_sinusoid_encoding_table fl p input_size' 1000 = Inr table)"
    by blast
  let ?self = "built h input_size' rk seq_len' rf mlp4 pe"
  have c: "h ! rk = [] \<longrightarrow>
          conv1d ?self = [] \<and>
          linear' ?self =
            concat (map (\<lambda>(a, b). [Linear a b, BatchNorm1d b, ReLU])
                      (zip ((input_size' * seq_len') # h ! rf) (h ! rf)))"
    by (simp add: built_def conv_stack_def fc_stack_def)
  have d: "length mlp4 < 2 \<longrightarrow> decoder ?self = []"
    by (auto simp: built_def get_decoder_def py_range_def)
  have z: "\<forall>a. mlp4 = [a, 0] \<longrightarrow> decoder ?self = [Linear a 0]"
    by (simp add: built_def get_decoder_def py_range_def upt_rec)
  have w: "case position_enc ?self of
            None \<Rightarrow> positions = None
          | Some table \<Rightarrow> positions \<noteq> None \<and> (\<forall>row \<in> set table. int (length row) = input_size')"
  proof (cases pe)
    case None
    with pe show ?thesis by (simp add: built_def)
  next
    case (Some table)
    with pe obtain p where p: "positions = Some p"
      and t: "get_sinusoid_encoding_table fl p input_size' 1000 = Inr table" by auto
    have "\<forall>row \<in> set table. int (length row) = input_size'"
      using table_shape[OF t] assms(3) by (auto simp: in_set_conv_nth)
    with Some p show ?thesis by (simp add: built_def)
  qed
  from i c d z w show ?thesis by blast
qed

theorem init_no_validation_witness:
  "(0::nat) < length [[], [32::int]] \<and> (1::nat) < length [[], [32::int]]
   \<and> (0::int) < 4 \<and> (0::int) < 5
   \<and> list_all (\<lambda>w. 0 < w) ([[], [32::int]] ! 0 @ [[], [32]] ! 1 @ butlast [3])
   \<and> list_all (\<lambda>w. 0 \<le> w) [3::int]
   \<and> length [3::int] < 2 \<and> [[], [32::int]] ! 0 = []
   \<and> TempConv_init exact_floats [[], [32]] 4 0 5 (Some 1) [3] None =
     Inr (\<lparr>input_size = 4, seq_len = 5, name = ''TempCNN_FC32'', nker = 2, nfc = Some 3,
           decoder = [], conv1d = [],
           linear' = [Linear 20 32, BatchNorm1d 32, ReLU],
           position_enc = None, training = True\<rparr>,
          [[], [32], [4], [20, 32]])
   \<and> list_all (\<lambda>w. 0 < w) ([[8, 16], [32::int]] ! 0 @ [[8, 16], [32]] ! 1 @ butlast [32, 0])
   \<and> list_all (\<lambda>w. 0 \<le> w) [32, 0::int]
   \<and> positions_list (PInt 6) = [0, 1, 2, 3, 4, 5]
   \<and> list_all (\<lambda>pos. to_double exact_floats pos \<noteq> None) (positions_list (PInt 6))
   \<and> (\<exists>self h'.
        TempConv_init exact_floats [[8, 16], [32]] 4 0 5 (Some 1) [32, 0] (Some (PInt 6))
          = Inr (self, h')
        \<and> decoder self = [Linear 32 0]
        \<and> (\<exists>table. position_enc self = Some table
              \<and> list_all (\<lambda>row. length row = 4) table))"
proof -
  have h5: "\<forall>w \<in> set ([[], [32::int]] ! 0) \<union> set ([[], [32]] ! 1) \<union> set (butlast [3]). 0 < w"
    by simp
  have h6: "\<forall>w \<in> set [3::int]. 0 \<le> w" by simp
  from init_no_validation[where rk = 0 and h = "[[], [32]]" and rf = 1 and input_size' = 4
      and seq_len' = 5 and ?mlp4.0 = "[3]" and positions = None and fl = exact_floats,
      OF _ _ _ _ h5 h6]
  have a: "TempConv_init exact_floats [[], [32]] 4 0 5 (Some 1) [3] None =
     Inr (\<lparr>input_size = 4, seq_len = 5, name = ''TempCNN_FC32'', nker = 2, nfc = Some 3,
           decoder = [], conv1d = [],
           linear' = [Linear 20 32, BatchNorm1d 32, ReLU],
           position_enc = None, training = True\<rparr>,
          [[], [32], [4], [20, 32]])"
    by (simp add: init_eval)
  have p: "positions_list (PInt 6) = [0, 1, 2, 3, 4, 5]"
    by (simp add: py_range_def upt_rec)
  have q: "list_all (\<lambda>pos. to_double exact_floats pos \<noteq> None) (positions_list (PInt 6))"
    unfolding p by (simp add: exact_floats_def)
  have g5: "\<forall>w \<in> set ([[8, 16], [32::int]] ! 0) \<union> set ([[8, 16], [32]] ! 1)
              \<union> set (butlast [32, 0]). 0 < w"
    by simp
  have g6: "\<forall>w \<in> set [32, 0::int]. 0 \<le> w" by simp
  have g7: "case Some (PInt 6) of
             None \<Rightarrow> True
           | Some p \<Rightarrow> positions_list p \<noteq> []
                       \<and> (\<forall>pos \<in> set (positions_list p). to_double exact_floats pos \<noteq> None)"
    using exact_PInt_ok[of 6] by simp
  from init_no_validation[where rk = 0 and h = "[[8, 16], [32]]" and rf = 1
      and input_size' = 4 and seq_len' = 5 and ?mlp4.0 = "[32, 0]"
      and positions = "Some (PInt 6)" and fl = exact_floats, OF _ _ _ _ g5 g6 g7]
  have b: "\<exists>self h'.
        TempConv_init exact_floats [[8, 16], [32]] 4 0 5 (Some 1) [32, 0] (Some (PInt 6))
          = Inr (self, h')
        \<and> decoder self = [Linear 32 0]
        \<and> (\<exists>table. position_enc self = Some table
              \<and> list_all (\<lambda>row. length row = 4) table)"
    by (auto simp: list_all_iff split: option.splits)
  have r: "(0::nat) < length [[], [32::int]] \<and> (1::nat) < length [[], [32::int]]
   \<and> (0::int) < 4 \<and> (0::int) < 5
   \<and> list_all (\<lambda>w. 0 < w) ([[], [32::int]] ! 0 @ [[], [32]] ! 1 @ butlast [3])
   \<and> list_all (\<lambda>w. 0 \<le> w) [3::int]
   \<and> length [3::int] < 2 \<and> [[], [32::int]] ! 0 = []
   \<and> list_all (\<lambda>w. 0 < w) ([[8, 16], [32::int]] ! 0 @ [[8, 16], [32]] ! 1 @ butlast [32, 0])
   \<and> list_all (\<lambda>w. 0 \<le> w) [32, 0::int]"
    by simp
  from a b p q r show ?thesis by blast
qed

subsection \<open>Shapes through the stacks\<close>

lemma sequential_append:
  "sequential tr (xs @ ys) s = bind (sequential tr xs s) (sequential tr ys)"
  by (induction xs arbitrary: s) (auto simp: bind_def split: sum.splits)

lemma conv_stack_Cons:
  "conv_stack (a # b # ws) = [Conv1d a b 3 1, BatchNorm1d b, ReLU] @ conv_stack (b # ws)"
  by (simp add: conv_stack_def)

lemma fc_stack_Cons:
  "fc_stack (a # b # ws) = [Linear a b, BatchNorm1d b, ReLU] @ fc_stack (b # ws)"
  by (simp add: fc_stack_def)

lemma conv_stack_shape:
  assumes "\<forall>w \<in> set ws. 0 < w" and "0 \<le> a" and "1 \<le> L" and "tr \<longrightarrow> B * L \<noteq> 1"
  shows "sequential tr (conv_stack (a # ws)) [B, nat a, L] = Inr [B, nat (last (a # ws)), L]"
  using assms
proof (induction ws arbitrary: a)
  case Nil
  then show ?case by (simp add: conv_stack_def)
next
  case (Cons b ws)
  from Cons.prems have b: "0 < b" "\<forall>w \<in> set ws. 0 < w" by simp_all
  have step: "sequential tr [Conv1d a b 3 1, BatchNorm1d b, ReLU] [B, nat a, L] = Inr [B, nat b, L]"
    using Cons.prems b by (auto simp: numeral_3_eq_3)
  have rest: "sequential tr (conv_stack (b # ws)) [B, nat b, L] = Inr [B, nat (last (b # ws)), L]"
    using Cons.IH[of b] b Cons.prems by simp
  show ?case
    by (simp only: conv_stack_Cons sequential_append step rest bind_def sum.case last.simps list.simps if_False)
qed

lemma fc_stack_shape:
  assumes "\<forall>w \<in> set ws. 0 < w" and "0 \<le> a" and "tr \<longrightarrow> B \<noteq> 1"
  shows "sequential tr (fc_stack (a # ws)) [B, nat a] = Inr [B, nat (last (a # ws))]"
  using assms
proof (induction ws arbitrary: a)
  case Nil
  then show ?case by (simp add: fc_stack_def)
next
  case (Cons b ws)
  from Cons.prems have b: "0 < b" "\<forall>w \<in> set ws. 0 < w" by simp_all
  have step: "sequential tr [Linear a b, BatchNorm1d b, ReLU] [B, nat a] = Inr [B, nat b]"
    using Cons.prems b by auto
  have rest: "sequential tr (fc_stack (b # ws)) [B, nat b] = Inr [B, nat (last (b # ws))]"
    using Cons.IH[of b] b Cons.prems by simp
  show ?case
    by (simp only: fc_stack_Cons sequential_append step rest bind_def sum.case last.simps list.simps if_False)
qed

lemma decoder_step_Cons:
  "decoder_step (a # ns) (Suc i) = decoder_step ns i"
  by (auto simp: decoder_step_def)

lemma get_decoder_two: "get_decoder [a, b] = [Linear a b]"
  by (simp add: get_decoder_concat decoder_step_def)

lemma upt_0_Suc: "[0..<Suc m] = 0 # map Suc [0..<m]"
  by (metis map_Suc_upt upt_conv_Cons zero_less_Suc)

lemma get_decoder_Cons:
  "get_decoder (a # b # c # ns) = [Linear a b, BatchNorm1d b, ReLU] @ get_decoder (b # c # ns)"
proof -
  let ?m = "Suc (length ns)"
  have l1: "length (a # b # c # ns) - 1 = Suc ?m" by simp
  have l2: "length (b # c # ns) - 1 = ?m" by simp
  have f0: "decoder_step (a # b # c # ns) 0 = [Linear a b, BatchNorm1d b, ReLU]"
    by (simp add: decoder_step_def)
  have fS: "map (decoder_step (a # b # c # ns)) (map Suc [0..<?m])
              = map (decoder_step (b # c # ns)) [0..<?m]"
    by (simp only: map_map o_def decoder_step_Cons)
  have "get_decoder (a # b # c # ns)
          = concat (map (decoder_step (a # b # c # ns)) (0 # map Suc [0..<?m]))"
    by (simp only: get_decoder_concat l1 upt_0_Suc)
  also have "\<dots> = [Linear a b, BatchNorm1d b, ReLU]
                    @ concat (map (decoder_step (b # c # ns)) [0..<?m])"
    by (simp only: list.map concat.simps f0 fS)
  also have "\<dots> = [Linear a b, BatchNorm1d b, ReLU] @ get_decoder (b # c # ns)"
    by (simp only: get_decoder_concat l2)
  finally show ?thesis .
qed

lemma decoder_shape:
  assumes "\<forall>w \<in> set (b # ns). 0 < w" and "0 \<le> a" and "tr \<longrightarrow> B \<noteq> 1"
  shows "sequential tr (get_decoder (a # b # ns)) [B, nat a] = Inr [B, nat (last (b # ns))]"
  using assms
proof (induction ns arbitrary: a b)
  case Nil
  then show ?case by (simp add: get_decoder_two)
next
  case (Cons c ns)
  from Cons.prems have b: "0 < b" "\<forall>w \<in> set (c # ns). 0 < w" by simp_all
  have step: "sequential tr [Linear a b, BatchNorm1d b, ReLU] [B, nat a] = Inr [B, nat b]"
    using Cons.prems b by auto
  have rest: "sequential tr (get_decoder (b # c # ns)) [B, nat b] = Inr [B, nat (last (c # ns))]"
    using Cons.IH[of c b] b Cons.prems by simp
  show ?case
    by (simp only: get_decoder_Cons sequential_append step rest bind_def sum.case last.simps list.simps if_False)
qed

subsection \<open>The forward pass\<close>

lemma src_pos_row_in_bounds:
  "list_all (\<lambda>t. src_pos b t < n) [0..<m] \<longleftrightarrow> m = 0 \<or> m < n"
  by (induction m) (auto simp: src_pos_def)

lemma src_pos_in_bounds:
  "list_all (\<lambda>b. list_all (\<lambda>t. src_pos b t < n) [0..<m]) [0..<k] \<longleftrightarrow> k = 0 \<or> m = 0 \<or> m < n"
  by (induction k) (auto simp: src_pos_row_in_bounds)

lemma embedding_src_pos:
  "embedding weight k m src_pos =
     (if k = 0 \<or> m = 0 \<or> m < length weight
      then Inr \<lparr>shape = [k, m, length (hd weight)],
                elem = (\<lambda>i. weight ! src_pos (i ! 0) (i ! 1) ! (i ! 2))\<rparr>
      else Inl IndexError)"
  by (simp only: embedding_def src_pos_in_bounds)

lemma broadcast_dim_same: "broadcast_dim a a = Some a"
  by (simp add: broadcast_dim_def)

lemma enc_output_None:
  "position_enc m = None \<Longrightarrow> shape input = [B, L, C] \<Longrightarrow> enc_output m input = Inr input"
  by (simp add: enc_output_def)

lemma enc_output_Some:
  assumes "position_enc m = Some table" and "shape input = [B, L, C]"
  shows "enc_output m input =
     (if B = 0 \<or> L = 0 \<or> L < length table
      then (case broadcast_dim C (length (hd table)) of
              None \<Rightarrow> Inl RuntimeError
            | Some d \<Rightarrow>
                Inr \<lparr>shape = [B, L, d],
                     elem = (\<lambda>i. elem input (broadcast_index [B, L, C] i)
                               + table ! src_pos (broadcast_index [B, L, length (hd table)] i ! 0)
                                                 (broadcast_index [B, L, length (hd table)] i ! 1)
                                       ! (broadcast_index [B, L, length (hd table)] i ! 2))\<rparr>)
      else Inl IndexError)"
  using assms
  by (simp add: enc_output_def embedding_src_pos bind_def tensor_add_def broadcast_dim_same
      split: option.splits)

lemma enc_output_out_of_bounds:
  assumes "position_enc m = Some table" and "shape input = [B, L, C]"
      and "0 < B" and "0 < L" and "length table \<le> L"
  shows "enc_output m input = Inl IndexError"
  using assms by (simp add: enc_output_Some)

lemma forward_out_of_bounds:
  assumes "position_enc m = Some table" and "shape input = [B, L, C]"
      and "0 < B" and "0 < L" and "length table \<le> L"
  shows "forward m input = Inl IndexError"
  using enc_output_out_of_bounds[OF assms] by (simp add: forward_def bind_def)

lemma broadcast_index_id:
  "b < B \<Longrightarrow> t < L \<Longrightarrow> c < C \<Longrightarrow> broadcast_index [B, L, C] [b, t, c] = [b, t, c]"
  by (auto simp: broadcast_index_def)

lemma enc_output_in_bounds:
  assumes "position_enc m = Some table" and "shape input = [B, L, C]"
      and "length (hd table) = C" and "L < length table"
  shows "\<exists>enc. enc_output m input = Inr enc \<and> shape enc = [B, L, C]
           \<and> (\<forall>b<B. \<forall>t<L. \<forall>c<C. elem enc [b, t, c] = elem input [b, t, c] + table ! (t + 1) ! c)"
  using assms
  by (simp add: enc_output_Some broadcast_dim_same broadcast_index_id src_pos_def)

lemma conv_stack_nonempty: "conv_stack (a # b # ws) \<noteq> []"
  by (simp add: conv_stack_Cons)

lemma forward_shape_ok:
  assumes conv: "conv1d m = conv_stack (isz # ks)"
      and lin: "linear' m = fc_stack ((last (isz # ks) * sl) # fs)"
      and dec: "decoder m = get_decoder (a # b # ns)"
      and a: "a = last ((last (isz # ks) * sl) # fs)"
      and pos: "0 < isz" "0 < sl" "\<forall>w \<in> set ks. 0 < w" "\<forall>w \<in> set fs. 0 < w"
               "\<forall>w \<in> set (b # ns). 0 < w"
      and ks: "ks \<noteq> []"
      and enc: "enc_output m input = Inr enc" "shape enc = [B, nat sl, nat isz]"
      and B: "1 \<le> B" "training m \<longrightarrow> 2 \<le> B"
  shows "forward m input = Inr [B, nat (last (b # ns))]"
proof -
  let ?tr = "training m"
  let ?c = "last (isz # ks)"
  have c: "0 < ?c" using pos(1,3) ks by simp
  have L: "1 \<le> nat sl" using pos(2) by simp
  have BL: "?tr \<longrightarrow> B * nat sl \<noteq> 1" using B(2) by auto
  have B1: "?tr \<longrightarrow> B \<noteq> 1" using B(2) by auto
  have s1: "sequential ?tr (conv1d m) (permute_021 (shape enc)) = Inr [B, nat ?c, nat sl]"
    using conv_stack_shape[OF pos(3) _ L BL, of isz] pos(1) by (simp add: conv enc(2))
  have ne: "conv1d m \<noteq> []"
    using ks by (cases ks) (simp_all add: conv conv_stack_nonempty)
  have s2: "view_flat (conv1d m \<noteq> []) [B, nat ?c, nat sl] = Inr [B, nat (?c * sl)]"
    using B(1) ne c by (simp add: view_flat_def nat_mult_distrib)
  have w: "0 \<le> ?c * sl" using c pos(2) by simp
  have s3: "sequential ?tr (linear' m) [B, nat (?c * sl)] = Inr [B, nat a]"
    using fc_stack_shape[OF pos(4) w B1] by (simp only: lin a)
  have a0: "0 \<le> a"
    unfolding a using w pos(4) by (cases fs) (auto simp: less_imp_le)
  have s4: "sequential ?tr (decoder m) [B, nat a] = Inr [B, nat (last (b # ns))]"
    using decoder_shape[OF pos(5) a0 B1] by (simp only: dec)
  show ?thesis
    by (simp only: forward_def enc(1) bind_def sum.case s1 s2 s3 s4)
qed

lemma init_position_enc:
  assumes "TempConv_init fl h isz rk sl nfc' mlp4 positions = Inr (self, h')"
  shows "case positions of
           None \<Rightarrow> position_enc self = None
         | Some p \<Rightarrow> \<exists>table. get_sinusoid_encoding_table fl p isz 1000 = Inr table
                       \<and> position_enc self = Some table"
  using assms
  by (auto simp: TempConv_init_def Let_def deepcopy_def split: option.splits sum.splits)

lemma forward_seq_len_update: "forward (m\<lparr>seq_len := s\<rparr>) input = forward m input"
  by (simp add: forward_def enc_output_def split: list.splits)

lemma layer_shape_not_IndexError: "layer_shape tr l s \<noteq> Inl IndexError"
  by (cases l) (auto split: list.splits)

lemma sequential_not_IndexError: "sequential tr ls s \<noteq> Inl IndexError"
  by (induction ls arbitrary: s) (auto simp: layer_shape_not_IndexError split: sum.splits)

lemma view_flat_not_IndexError: "view_flat fresh s \<noteq> Inl IndexError"
  by (auto simp: view_flat_def split: list.splits)

lemma forward_IndexError:
  "forward m input = Inl IndexError \<longleftrightarrow> enc_output m input = Inl IndexError"
  by (auto simp: forward_def bind_def sequential_not_IndexError view_flat_not_IndexError
      split: sum.splits)

lemma enc_output_IndexError:
  assumes "position_enc m = Some table" and "shape input = [B, L, C]"
  shows "enc_output m input = Inl IndexError \<longleftrightarrow> 0 < B \<and> 0 < L \<and> length table \<le> L"
  using assms by (auto simp: enc_output_Some split: option.splits)

text \<open>
  Claim C5 says that a module built with \<open>positions = seq_len\<close> raises on a forward call
  with the configured sequence length. On an empty batch nothing is looked up: a module
  built with \<open>positions = seq_len = 5\<close> adds the (empty) encoding to an input of shape
  \<open>(0, 5, 4)\<close>, and the forward pass does not raise \<open>IndexError\<close>.
\<close>

theorem forward_empty_batch_no_lookup:
  "\<exists>self h'.
     TempConv_init exact_floats [[8, 16], [32]] 4 0 5 (Some 1) [32, 10, 3] (Some (PInt 5))
       = Inr (self, h')
   \<and> (\<exists>enc. enc_output self (zeros [0, 5, 4]) = Inr enc \<and> shape enc = [0, 5, 4])
   \<and> forward self (zeros [0, 5, 4]) \<noteq> Inl IndexError"
proof -
  from init_builds[where rk = 0 and rf = 1 and h = "[[8, 16], [32]]" and fl = exact_floats
      and positions = "Some (PInt 5)" and isz = 4 and sl = 5 and ?mlp4.0 = "[32, 10, 3]"]
    exact_PInt_ok[of 5]
  obtain table where
    i: "TempConv_init exact_floats [[8, 16], [32]] 4 0 5 (Some 1) [32, 10, 3] (Some (PInt 5))
          = Inr (built [[8, 16], [32]] 4 0 5 1 [32, 10, 3] (Some table),
                 built_heap [[8, 16], [32]] 4 0 5 1)"
    and t: "get_sinusoid_encoding_table exact_floats (PInt 5) 4 1000 = Inr table"
    by (auto split: option.splits)
  let ?self = "built [[8, 16], [32]] 4 0 5 1 [32, 10, 3] (Some table)"
  have pe: "position_enc ?self = Some table" by (simp add: built_def)
  have s: "shape (zeros [0, 5, 4] :: real tensor) = [0, 5, 4]" by (simp add: zeros_def)
  from table_width[OF t] have w: "length (hd table) = 4" by simp
  have e: "\<exists>enc. enc_output ?self (zeros [0, 5, 4]) = Inr enc \<and> shape enc = [0, 5, 4]"
    using enc_output_Some[OF pe s] w by (simp add: broadcast_dim_same)
  then have "enc_output ?self (zeros [0, 5, 4]) \<noteq> Inl IndexError" by auto
  then have "forward ?self (zeros [0, 5, 4]) \<noteq> Inl IndexError"
    by (simp add: forward_IndexError)
  with i e show ?thesis by blast
qed

text \<open>
  Claim C5, amended. The forward pass takes the sequence length from the shape of its
  input: the configured \<open>seq_len\<close> has no influence on it. Construction with an integer
  \<open>positions = N \<ge> 1\<close> (positions convertible to a double, \<open>nfc\<close> a list) returns a module,
  and in every module so built the table has \<open>N\<close> rows. For an input of length \<open>L\<close> the
  indices \<open>1..L\<close> of the lookup are all rows of the table if and only if \<open>L \<le> N - 1\<close>. For
  a non-empty batch the lookup succeeds if and only if \<open>L \<le> N - 1\<close>, and the position
  encoding, and with it the forward pass, raises \<open>IndexError\<close> if and only if \<open>L > N - 1\<close>;
  for an empty batch nothing is looked up and \<open>IndexError\<close> is not raised. In particular a
  module built with \<open>positions = seq_len\<close> raises \<open>IndexError\<close> on a non-empty batch of the
  configured length.
\<close>

theorem forward_lookup_bounds:
  assumes "rk < length h" and "case nfc' of None \<Rightarrow> True | Some rf \<Rightarrow> rf < length h"
      and "shape input = [B, L, C]"
  shows "(nfc' \<noteq> None \<and> 0 < N
          \<and> (\<forall>pos \<in> set (positions_list (PInt N)). to_double fl pos \<noteq> None)
          \<longrightarrow> (\<exists>self h'.
                 TempConv_init fl h input_size' rk seq_len' nfc' mlp4 (Some (PInt N))
                   = Inr (self, h')))
     \<and> (\<forall>self h'.
          TempConv_init fl h input_size' rk seq_len' nfc' mlp4 (Some (PInt N)) = Inr (self, h')
          \<longrightarrow>
            (\<forall>s. forward (self\<lparr>seq_len := s\<rparr>) input = forward self input)
          \<and> (\<exists>table. position_enc self = Some table \<and> int (length table) = N
               \<and> ((\<forall>b. \<forall>t<L. src_pos b t < length table) \<longleftrightarrow> int L \<le> N - 1)
               \<and> (0 < B \<longrightarrow>
                    ((\<exists>pe. embedding table B L src_pos = Inr pe) \<longleftrightarrow> int L \<le> N - 1))
               \<and> (B = 0 \<longrightarrow> (\<exists>pe. embedding table B L src_pos = Inr pe)))
          \<and> (0 < B \<longrightarrow> (enc_output self input = Inl IndexError \<longleftrightarrow> N - 1 < int L))
          \<and> (0 < B \<longrightarrow> (forward self input = Inl IndexError \<longleftrightarrow> N - 1 < int L))
          \<and> (B = 0 \<longrightarrow> forward self input \<noteq> Inl IndexError)
          \<and> (0 < B \<and> N = seq_len' \<and> int L = seq_len' \<longrightarrow>
                forward self input = Inl IndexError))"
proof (rule conjI)
  show "nfc' \<noteq> None \<and> 0 < N
          \<and> (\<forall>pos \<in> set (positions_list (PInt N)). to_double fl pos \<noteq> None)
          \<longrightarrow> (\<exists>self h'.
                 TempConv_init fl h input_size' rk seq_len' nfc' mlp4 (Some (PInt N))
                   = Inr (self, h'))"
  proof
    assume a: "nfc' \<noteq> None \<and> 0 < N
          \<and> (\<forall>pos \<in> set (positions_list (PInt N)). to_double fl pos \<noteq> None)"
    then obtain rf where rf: "nfc' = Some rf" by auto
    with assms(2) have r: "rf < length h" by simp
    from a have ne: "positions_list (PInt N) \<noteq> []" by (simp add: py_range_def)
    from init_builds[OF assms(1) r, where positions = "Some (PInt N)" and fl = fl
        and isz = input_size' and sl = seq_len' and ?mlp4.0 = mlp4] a ne
    show "\<exists>self h'.
            TempConv_init fl h input_size' rk seq_len' nfc' mlp4 (Some (PInt N))
              = Inr (self, h')"
      unfolding rf by auto
  qed
next
  show "\<forall>self h'.
          TempConv_init fl h input_size' rk seq_len' nfc' mlp4 (Some (PInt N)) = Inr (self, h')
          \<longrightarrow>
            (\<forall>s. forward (self\<lparr>seq_len := s\<rparr>) input = forward self input)
          \<and> (\<exists>table. position_enc self = Some table \<and> int (length table) = N
               \<and> ((\<forall>b. \<forall>t<L. src_pos b t < length table) \<longleftrightarrow> int L \<le> N - 1)
               \<and> (0 < B \<longrightarrow>
                    ((\<exists>pe. embedding table B L src_pos = Inr pe) \<longleftrightarrow> int L \<le> N - 1))
               \<and> (B = 0 \<longrightarrow> (\<exists>pe. embedding table B L src_pos = Inr pe)))
          \<and> (0 < B \<longrightarrow> (enc_output self input = Inl IndexError \<longleftrightarrow> N - 1 < int L))
          \<and> (0 < B \<longrightarrow> (forward self input = Inl IndexError \<longleftrightarrow> N - 1 < int L))
          \<and> (B = 0 \<longrightarrow> forward self input \<noteq> Inl IndexError)
          \<and> (0 < B \<and> N = seq_len' \<and> int L = seq_len' \<longrightarrow>
                forward self input = Inl IndexError)"
  proof (intro allI impI)
    fix self h'
    assume init:
      "TempConv_init fl h input_size' rk seq_len' nfc' mlp4 (Some (PInt N)) = Inr (self, h')"
    from init_position_enc[OF init] obtain table where
      t: "get_sinusoid_encoding_table fl (PInt N) input_size' 1000 = Inr table"
      and pe: "position_enc self = Some table" by auto
    from table_shape[OF t] have len: "length table = nat N" "table \<noteq> []"
      by (simp_all add: py_range_def)
    from len(2) have "0 < length table" by simp
    with len(1) have N: "0 < N" "int (length table) = N" by simp_all
    have idx: "(\<forall>b. \<forall>t<L. src_pos b t < length table) \<longleftrightarrow> int L \<le> N - 1"
    proof (cases L)
      case 0
      then show ?thesis using N by simp
    next
      case (Suc l)
      have "(\<forall>t<Suc l. Suc t < length table) \<longleftrightarrow> Suc l < length table"
        by (metis Suc_lessI lessI less_trans_Suc not_less_eq)
      then show ?thesis using Suc N by (auto simp: src_pos_def)
    qed
    have emb: "0 < B \<longrightarrow>
                 ((\<exists>e. embedding table B L src_pos = Inr e) \<longleftrightarrow> int L \<le> N - 1)"
      using N by (auto simp: embedding_src_pos)
    have emb0: "B = 0 \<longrightarrow> (\<exists>e. embedding table B L src_pos = Inr e)"
      by (simp add: embedding_src_pos)
    have enc: "0 < B \<longrightarrow> (enc_output self input = Inl IndexError \<longleftrightarrow> N - 1 < int L)"
      using enc_output_IndexError[OF pe assms(3)] N by auto
    have fwd: "0 < B \<longrightarrow> (forward self input = Inl IndexError \<longleftrightarrow> N - 1 < int L)"
      using enc by (simp add: forward_IndexError)
    have fwd0: "B = 0 \<longrightarrow> forward self input \<noteq> Inl IndexError"
      using enc_output_IndexError[OF pe assms(3)] by (simp add: forward_IndexError)
    from N have "N - 1 < N" by simp
    with fwd have same:
      "0 < B \<and> N = seq_len' \<and> int L = seq_len' \<longrightarrow> forward self input = Inl IndexError"
      by auto
    have upd: "\<forall>s. forward (self\<lparr>seq_len := s\<rparr>) input = forward self input"
      by (simp add: forward_seq_len_update)
    from pe N(2) idx emb emb0
    have tab: "\<exists>table. position_enc self = Some table \<and> int (length table) = N
               \<and> ((\<forall>b. \<forall>t<L. src_pos b t < length table) \<longleftrightarrow> int L \<le> N - 1)
               \<and> (0 < B \<longrightarrow>
                    ((\<exists>pe. embedding table B L src_pos = Inr pe) \<longleftrightarrow> int L \<le> N - 1))
               \<and> (B = 0 \<longrightarrow> (\<exists>pe. embedding table B L src_pos = Inr pe))"
      by blast
    from upd tab enc fwd fwd0 same
    show "(\<forall>s. forward (self\<lparr>seq_len := s\<rparr>) input = forward self input)
          \<and> (\<exists>table. position_enc self = Some table \<and> int (length table) = N
               \<and> ((\<forall>b. \<forall>t<L. src_pos b t < length table) \<longleftrightarrow> int L \<le> N - 1)
               \<and> (0 < B \<longrightarrow>
                    ((\<exists>pe. embedding table B L src_pos = Inr pe) \<longleftrightarrow> int L \<le> N - 1))
               \<and> (B = 0 \<longrightarrow> (\<exists>pe. embedding table B L src_pos = Inr pe)))
          \<and> (0 < B \<longrightarrow> (enc_output self input = Inl IndexError \<longleftrightarrow> N - 1 < int L))
          \<and> (0 < B \<longrightarrow> (forward self input = Inl IndexError \<longleftrightarrow> N - 1 < int L))
          \<and> (B = 0 \<longrightarrow> forward self input \<noteq> Inl IndexError)
          \<and> (0 < B \<and> N = seq_len' \<and> int L = seq_len' \<longrightarrow>
                forward self input = Inl IndexError)"
      by blast
  qed
qed

theorem forward_lookup_bounds_witness:
  "(0::nat) < length [[8, 16], [32::int]] \<and> (1::nat) < length [[8, 16], [32::int]]
   \<and> shape (zeros [2, 5, 4] :: real tensor) = [2, 5, 4]
   \<and> shape (zeros [2, 4, 4] :: real tensor) = [2, 4, 4]
   \<and> (0::int) < 5
   \<and> list_all (\<lambda>pos. to_double exact_floats pos \<noteq> None) (positions_list (PInt 5))
   \<and> (\<exists>self h'.
        TempConv_init exact_floats [[8, 16], [32]] 4 0 5 (Some 1) [32, 10, 3] (Some (PInt 5))
          = Inr (self, h')
        \<and> enc_output self (zeros [2, 5, 4]) = Inl IndexError
        \<and> forward self (zeros [2, 5, 4]) = Inl IndexError
        \<and> enc_output self (zeros [2, 4, 4]) \<noteq> Inl IndexError
        \<and> forward self (zeros [2, 4, 4]) \<noteq> Inl IndexError)
   \<and> TempConv_call exact_floats [[8, 16], [32]] 4 0 5 (Some 1) [32, 10, 3] (Some (PInt 5))
        (zeros [2, 5, 4]) = Inl IndexError"
proof -
  have r: "(0::nat) < length [[8, 16], [32::int]]"
    "case Some (1::nat) of None \<Rightarrow> True | Some rf \<Rightarrow> rf < length [[8, 16], [32::int]]"
    by simp_all
  have s5: "shape (zeros [2, 5, 4] :: real tensor) = [2, 5, 4]" by (simp add: zeros_def)
  have s4: "shape (zeros [2, 4, 4] :: real tensor) = [2, 4, 4]" by (simp add: zeros_def)
  have q: "\<forall>pos \<in> set (positions_list (PInt 5)). to_double exact_floats pos \<noteq> None"
    using exact_PInt_ok[of 5] by simp
  note t5 = forward_lookup_bounds[OF r s5, where N = 5 and fl = exact_floats
      and input_size' = 4 and seq_len' = 5 and ?mlp4.0 = "[32, 10, 3]"]
  note t4 = forward_lookup_bounds[OF r s4, where N = 5 and fl = exact_floats
      and input_size' = 4 and seq_len' = 5 and ?mlp4.0 = "[32, 10, 3]"]
  from t5 q obtain self h' where
    i: "TempConv_init exact_floats [[8, 16], [32]] 4 0 5 (Some 1) [32, 10, 3] (Some (PInt 5))
          = Inr (self, h')"
    by auto
  from t5 i have a: "enc_output self (zeros [2, 5, 4]) = Inl IndexError"
    "forward self (zeros [2, 5, 4]) = Inl IndexError" by auto
  from t4 i have b: "enc_output self (zeros [2, 4, 4]) \<noteq> Inl IndexError"
    "forward self (zeros [2, 4, 4]) \<noteq> Inl IndexError" by auto
  from i a(2) have c:
    "TempConv_call exact_floats [[8, 16], [32]] 4 0 5 (Some 1) [32, 10, 3] (Some (PInt 5))
        (zeros [2, 5, 4]) = Inl IndexError"
    by (simp add: TempConv_call_def bind_def)
  from q have q': "list_all (\<lambda>pos. to_double exact_floats pos \<noteq> None) (positions_list (PInt 5))"
    by (simp add: list_all_iff)
  have "(0::int) < 5" by simp
  with r(1) s5 s4 q' i a b c show ?thesis by auto
qed

lemma enc_output_row0_Cons:
  assumes "position_enc m = Some (r # rs)" and "length row = length r"
  shows "enc_output (m\<lparr>position_enc := Some (row # rs)\<rparr>) input = enc_output m input"
  using assms
  by (simp add: enc_output_def embedding_def src_pos_def split: list.splits)

lemma enc_output_row0:
  assumes "position_enc m = Some table" and "table \<noteq> []" and "length row = length (hd table)"
  shows "enc_output (m\<lparr>position_enc := Some (row # tl table)\<rparr>) input = enc_output m input"
proof -
  from assms(2) obtain r rs where t: "table = r # rs" by (cases table) auto
  from enc_output_row0_Cons[of m r rs row input] assms(1,3) show ?thesis
    by (simp add: t)
qed

text \<open>
  Claim C4, amended. For every constructed module and every input batch of shape
  \<open>(B, seq_len, input_size)\<close>: without position encoding the input goes on unchanged;
  with position encoding, provided the table has more than \<open>seq_len\<close> rows, the entry at
  time step \<open>t\<close> (counted from 0) and channel \<open>c\<close> of every sample gets the table entry of
  row \<open>t + 1\<close> and column \<open>c\<close> added, so rows \<open>1..seq_len\<close> are used and row 0 is not:
  replacing row 0 changes nothing. The sum is what the convolution stack receives.
\<close>

theorem enc_output_adds_rows:
  assumes "TempConv_init fl h input_size' rk seq_len' nfc' mlp4 positions = Inr (self, h')"
      and "0 < input_size'"
      and "shape input = [B, nat seq_len', nat input_size']"
  shows "(positions = None \<longrightarrow> enc_output self input = Inr input)
     \<and> (\<forall>p. positions = Some p \<and> nat seq_len' < length (positions_list p) \<longrightarrow>
          (\<exists>table enc.
              get_sinusoid_encoding_table fl p input_size' 1000 = Inr table
            \<and> position_enc self = Some table
            \<and> enc_output self input = Inr enc
            \<and> shape enc = shape input
            \<and> (\<forall>b<B. \<forall>t<nat seq_len'. \<forall>c<nat input_size'.
                  elem enc [b, t, c] = elem input [b, t, c] + table ! (t + 1) ! c)
            \<and> (\<forall>row. length row = nat input_size' \<longrightarrow>
                  enc_output (self\<lparr>position_enc := Some (row # tl table)\<rparr>) input = Inr enc)))
     \<and> forward self input =
         bind (enc_output self input) (\<lambda>enc.
         bind (sequential (training self) (conv1d self) (permute_021 (shape enc))) (\<lambda>out.
         bind (view_flat (conv1d self \<noteq> []) out) (\<lambda>out.
         bind (sequential (training self) (linear' self) out) (\<lambda>out.
         sequential (training self) (decoder self) out))))"
proof -
  note pe = init_position_enc[OF assms(1)]
  have none: "positions = None \<longrightarrow> enc_output self input = Inr input"
    using pe assms(3) by (auto simp: enc_output_None)
  have some: "\<exists>table enc.
              get_sinusoid_encoding_table fl p input_size' 1000 = Inr table
            \<and> position_enc self = Some table
            \<and> enc_output self input = Inr enc
            \<and> shape enc = shape input
            \<and> (\<forall>b<B. \<forall>t<nat seq_len'. \<forall>c<nat input_size'.
                  elem enc [b, t, c] = elem input [b, t, c] + table ! (t + 1) ! c)
            \<and> (\<forall>row. length row = nat input_size' \<longrightarrow>
                  enc_output (self\<lparr>position_enc := Some (row # tl table)\<rparr>) input = Inr enc)"
    if p: "positions = Some p" and l: "nat seq_len' < length (positions_list p)" for p
  proof -
    from pe p obtain table where
      t: "get_sinusoid_encoding_table fl p input_size' 1000 = Inr table"
      and s: "position_enc self = Some table" by auto
    note sh = table_shape[OF t]
    from sh have ne: "table \<noteq> []" by simp
    note w = table_width[OF t]
    from sh l have r: "nat seq_len' < length table" by simp
    from enc_output_in_bounds[OF s assms(3) w r] obtain enc where
      e: "enc_output self input = Inr enc" "shape enc = [B, nat seq_len', nat input_size']"
         "\<forall>b<B. \<forall>t<nat seq_len'. \<forall>c<nat input_size'.
            elem enc [b, t, c] = elem input [b, t, c] + table ! (t + 1) ! c"
      by blast
    have r0: "\<forall>row. length row = nat input_size' \<longrightarrow>
                  enc_output (self\<lparr>position_enc := Some (row # tl table)\<rparr>) input = Inr enc"
      using enc_output_row0[OF s ne] w e(1) by simp
    from t s e r0 assms(3) show ?thesis by simp
  qed
  have fwd: "forward self input =
         bind (enc_output self input) (\<lambda>enc.
         bind (sequential (training self) (conv1d self) (permute_021 (shape enc))) (\<lambda>out.
         bind (view_flat (conv1d self \<noteq> []) out) (\<lambda>out.
         bind (sequential (training self) (linear' self) out) (\<lambda>out.
         sequential (training self) (decoder self) out))))"
    by (simp add: forward_def)
  from none some fwd show ?thesis by blast
qed

lemma call_out_of_bounds:
  assumes "rk < length h" and "rf < length h" and "positions_list p \<noteq> []"
      and "\<forall>pos \<in> set (positions_list p). to_double fl pos \<noteq> None"
      and "shape input = [B, L, C]" and "0 < B" and "length (positions_list p) \<le> L"
  shows "TempConv_call fl h isz rk sl (Some rf) mlp4 (Some p) input = Inl IndexError"
proof -
  from table_Inr[OF assms(3,4)] obtain table where
    t: "get_sinusoid_encoding_table fl p isz 1000 = Inr table" by blast
  have i: "TempConv_init fl h isz rk sl (Some rf) mlp4 (Some p)
             = Inr (built h isz rk sl rf mlp4 (Some table), built_heap h isz rk sl rf)"
    using init_Some[OF assms(1,2), of fl isz sl mlp4 "Some p"] t by simp
  have pe: "position_enc (built h isz rk sl rf mlp4 (Some table)) = Some table"
    by (simp add: built_def)
  from table_shape[OF t] have len: "length table = length (positions_list p)" by blast
  from assms(3) have "0 < length (positions_list p)" by simp
  from this assms(7) have L: "0 < L" by (rule less_le_trans)
  from assms(7) len have "length table \<le> L" by simp
  from forward_out_of_bounds[OF pe assms(5,6) L this] i show ?thesis
    by (simp add: TempConv_call_def bind_def)
qed

text \<open>
  Claim C4 as stated covers every module with position encoding. A module built with
  \<open>positions = seq_len = 3\<close> adds nothing to an input of shape \<open>(2, 3, 2)\<close>: the lookup
  of index 3 raises \<open>IndexError\<close>.
\<close>

theorem enc_output_short_table:
  "TempConv_call exact_floats [[4], [6]] 2 0 3 (Some 1) [6, 2] (Some (PInt 3)) (zeros [2, 3, 2])
     = Inl IndexError"
proof (rule call_out_of_bounds[where B = 2 and L = 3 and C = 2])
  show "\<forall>pos \<in> set (positions_list (PInt 3)). to_double exact_floats pos \<noteq> None"
    using exact_PInt_ok[of 3] by simp
qed (simp_all add: zeros_def py_range_def)

theorem enc_output_adds_rows_witness:
  "(0::int) < 2 \<and> shape (zeros [2, 1, 2] :: real tensor) = [2, nat 1, nat 2]
   \<and> nat 1 < length (positions_list (PInt 2))
   \<and> (\<exists>self h' enc.
         TempConv_init exact_floats [[4], [4]] 2 0 1 (Some 1) [4, 2] (Some (PInt 2)) = Inr (self, h')
       \<and> position_enc self = Some [[0, 1], [sin 1, cos 1]]
       \<and> enc_output self (zeros [2, 1, 2]) = Inr enc
       \<and> shape enc = [2, 1, 2]
       \<and> elem enc [0, 0, 0] = sin 1 \<and> elem enc [0, 0, 1] = cos 1
       \<and> elem enc [1, 0, 0] = sin 1 \<and> elem enc [1, 0, 1] = cos 1)"
proof -
  have t: "get_sinusoid_encoding_table exact_floats (PInt 2) 2 1000 = Inr [[0, 1], [sin 1, cos 1]]"
    by (simp add: get_sinusoid_encoding_table_def py_range_def upt_rec
        get_posi_angle_vec_def cal_angle_def assign_cols_def exact_floats_def)
  obtain self h' where
    i: "TempConv_init exact_floats [[4], [4]] 2 0 1 (Some 1) [4, 2] (Some (PInt 2)) = Inr (self, h')"
    using init_Some[of 0 "[[4], [4]]" 1 exact_floats 2 1 "[4, 2]" "Some (PInt 2)"] t by simp
  have s: "shape (zeros [2, 1, 2] :: real tensor) = [2, nat 1, nat 2]" by (simp add: zeros_def)
  have l: "nat 1 < length (positions_list (PInt 2))" by (simp add: py_range_def)
  from enc_output_adds_rows[OF i _ s] l t obtain enc where
    e: "position_enc self = Some [[0, 1], [sin 1, cos 1]]"
       "enc_output self (zeros [2, 1, 2]) = Inr enc" "shape enc = shape (zeros [2, 1, 2] :: real tensor)"
       "\<forall>b<2. \<forall>t<nat 1. \<forall>c<nat 2.
          elem enc [b, t, c] = elem (zeros [2, 1, 2]) [b, t, c] + [[0, 1], [sin 1, cos 1]] ! (t + 1) ! c"
    by auto
  from e(4) have "elem enc [0, 0, 0] = sin 1" "elem enc [0, 0, 1] = cos 1"
    "elem enc [1, 0, 0] = sin 1" "elem enc [1, 0, 1] = cos 1"
    by (simp_all add: zeros_def)
  with i e s l show ?thesis by auto
qed

lemma enc_output_broadcast:
  assumes "position_enc m = Some table" and "shape input = [B, L, C]"
      and "length (hd table) = W" and "L < length table" and "C = W \<or> C = 1"
  shows "\<exists>enc. enc_output m input = Inr enc \<and> shape enc = [B, L, W]"
  using assms
  by (auto simp: enc_output_Some broadcast_dim_def)

lemma forward_built_ok:
  assumes ks: "h ! rk \<noteq> []"
      and pos: "0 < isz" "0 < sl" "\<forall>w \<in> set (h ! rk) \<union> set (h ! rf) \<union> set mlp4. 0 < w"
      and mlp: "2 \<le> length mlp4" "hd mlp4 = last ((last (h ! rk) * sl) # h ! rf)"
      and pe: "case pe of None \<Rightarrow> True
               | Some table \<Rightarrow> length (hd table) = nat isz \<and> nat sl < length table"
      and inp: "shape input = [B, nat sl, C]" "1 \<le> B" "tr \<longrightarrow> 2 \<le> B"
      and C: "C = nat isz \<or> (pe \<noteq> None \<and> C = 1)"
  shows "forward ((built h isz rk sl rf mlp4 pe)\<lparr>training := tr\<rparr>) input
           = Inr [B, nat (last mlp4)]"
proof -
  let ?m = "(built h isz rk sl rf mlp4 pe)\<lparr>training := tr\<rparr>"
  from mlp(1) obtain a b ns where m4: "mlp4 = a # b # ns"
    by (cases mlp4; cases "tl mlp4") auto
  have lastk: "last (isz # h ! rk) = last (h ! rk)" using ks by simp
  obtain enc where enc: "enc_output ?m input = Inr enc" "shape enc = [B, nat sl, nat isz]"
  proof (cases pe)
    case None
    then have "position_enc ?m = None" by (simp add: built_def)
    from enc_output_None[OF this inp(1)] inp(1) that C None show ?thesis by simp
  next
    case (Some table)
    then have p: "position_enc ?m = Some table" by (simp add: built_def)
    from pe Some have "length (hd table) = nat isz" "nat sl < length table" by simp_all
    from enc_output_broadcast[OF p inp(1) this] C that show ?thesis by blast
  qed
  have "forward ?m input = Inr [B, nat (last (b # ns))]"
  proof (rule forward_shape_ok[where isz = isz and ks = "h ! rk" and sl = sl and fs = "h ! rf"
        and a = a and enc = enc])
    show "conv1d ?m = conv_stack (isz # h ! rk)" by (simp add: built_def)
    show "linear' ?m = fc_stack ((last (isz # h ! rk) * sl) # h ! rf)" by (simp add: built_def)
    show "decoder ?m = get_decoder (a # b # ns)" by (simp add: built_def m4)
    show "a = last ((last (isz # h ! rk) * sl) # h ! rf)" using mlp(2) by (simp only: lastk m4 list.sel)
    show "0 < isz" "0 < sl" by fact+
    show "\<forall>w\<in>set (h ! rk). 0 < w" "\<forall>w\<in>set (h ! rf). 0 < w" using pos(3) by auto
    show "\<forall>w\<in>set (b # ns). 0 < w" using pos(3) by (simp add: m4)
    show "h ! rk \<noteq> []" by fact
    show "enc_output ?m input = Inr enc" "shape enc = [B, nat sl, nat isz]" by fact+
    show "1 \<le> B" by fact
    show "training ?m \<longrightarrow> 2 \<le> B" using inp(3) by simp
  qed
  then show ?thesis by (simp add: m4)
qed

text \<open>
  Claim C10, amended. Take a module built from a configuration with a non-empty \<open>nker\<close>,
  positive widths and a decoder list of length at least 2 whose first width is the
  output width of the fully-connected stack, with position encoding disabled or with a
  table of more than \<open>seq_len\<close> rows. For every input batch of shape
  \<open>(B, seq_len, input_size)\<close> with \<open>B \<ge> 1\<close>, and \<open>B \<ge> 2\<close> in training mode (the mode of a
  module as constructed), the forward pass returns a tensor of shape \<open>(B, mlp4[-1])\<close>; in
  particular the batch size is preserved.
\<close>

theorem forward_output_shape:
  assumes init: "TempConv_init fl h input_size' rk seq_len' (Some rf) mlp4 positions = Inr (self, h')"
      and refs: "rk < length h" "rf < length h"
      and cfg: "h ! rk \<noteq> []" "0 < input_size'" "0 < seq_len'"
               "\<forall>w \<in> set (h ! rk) \<union> set (h ! rf) \<union> set mlp4. 0 < w"
               "2 \<le> length mlp4" "hd mlp4 = last ((last (h ! rk) * seq_len') # h ! rf)"
      and tab: "case positions of None \<Rightarrow> True
                | Some p \<Rightarrow> nat seq_len' < length (positions_list p)"
      and inp: "shape input = [B, nat seq_len', nat input_size']" "1 \<le> B" "tr \<longrightarrow> 2 \<le> B"
  shows "forward (self\<lparr>training := tr\<rparr>) input = Inr [B, nat (last mlp4)]
       \<and> (training self \<longrightarrow> 2 \<le> B \<longrightarrow> forward self input = Inr [B, nat (last mlp4)])"
proof -
  have r: "case Some rf of None \<Rightarrow> True | Some rf \<Rightarrow> rf < length h" using refs(2) by simp
  from init_Inr_cases[OF init refs(1) r] obtain pe where
    self: "self = built h input_size' rk seq_len' rf mlp4 pe"
    and pe: "case pe of None \<Rightarrow> positions = None
       | Some table \<Rightarrow> \<exists>p. positions = Some p \<and> get_sinusoid_encoding_table fl p input_size' 1000 = Inr table"
    by auto
  have pe': "case pe of None \<Rightarrow> True
             | Some table \<Rightarrow> length (hd table) = nat input_size' \<and> nat seq_len' < length table"
  proof (cases pe)
    case None
    then show ?thesis by simp
  next
    case (Some table)
    with pe obtain p where p: "positions = Some p"
      "get_sinusoid_encoding_table fl p input_size' 1000 = Inr table" by auto
    from table_shape[OF p(2)] have "length table = length (positions_list p)" by blast
    with tab p(1) table_width[OF p(2)] Some show ?thesis by simp
  qed
  note ok = forward_built_ok[OF cfg pe' inp(1,2)]
  have a: "forward (self\<lparr>training := tr\<rparr>) input = Inr [B, nat (last mlp4)]"
    unfolding self using ok[of tr] inp(3) by simp
  have b: "training self \<longrightarrow> 2 \<le> B \<longrightarrow> forward self input = Inr [B, nat (last mlp4)]"
    using ok[of True] by (simp add: self built_def)
  from a b show ?thesis by simp
qed

theorem forward_output_shape_witness:
  "TempConv_call exact_floats [[8, 16], [32]] 4 0 5 (Some 1) [32, 10, 3] None (zeros [2, 5, 4]) = Inr [2, 3]
   \<and> shape (zeros [2, 5, 4] :: real tensor) = [2, nat 5, nat 4]
   \<and> hd [32, 10, 3 :: int] = last ((last ([[8, 16], [32]] ! 0) * 5) # [[8, 16], [32]] ! 1)"
proof -
  obtain self h' where
    i: "TempConv_init exact_floats [[8, 16], [32]] 4 0 5 (Some 1) [32, 10, 3] None = Inr (self, h')"
    using init_Some[of 0 "[[8, 16], [32]]" 1 exact_floats 4 5 "[32, 10, 3]" None] by simp
  have s: "shape (zeros [2, 5, 4] :: real tensor) = [2, nat 5, nat 4]" by (simp add: zeros_def)
  have w: "\<forall>w \<in> set ([[8, 16], [32]] ! 0) \<union> set ([[8, 16], [32]] ! 1) \<union> set [32, 10, 3 :: int]. 0 < w"
    by simp
  have "forward (self\<lparr>training := True\<rparr>) (zeros [2, 5, 4]) = Inr [2, nat (last [32, 10, 3])]
       \<and> (training self \<longrightarrow> 2 \<le> (2::nat) \<longrightarrow>
            forward self (zeros [2, 5, 4]) = Inr [2, nat (last [32, 10, 3])])"
    by (rule forward_output_shape[OF i _ _ _ _ _ w _ _ _ s]) simp_all
  moreover have "training self" using i by (auto simp: init_eval)
  ultimately have "forward self (zeros [2, 5, 4]) = Inr [2, 3]" by simp
  with i s show ?thesis by (simp add: TempConv_call_def bind_def)
qed

text \<open>
  Claim C10 as stated covers every input batch of shape \<open>(B, seq_len, input_size)\<close>. For a
  module built with as many positions as \<open>seq_len = 4\<close>, the batch of shape \<open>(3, 4, 3)\<close>
  gives no output: the forward pass raises \<open>IndexError\<close>.
\<close>

theorem forward_short_table:
  "TempConv_call exact_floats [[6], [8]] 3 0 4 (Some 1) [8, 2] (Some (PList [10, 20, 30, 40])) (zeros [3, 4, 3])
     = Inl IndexError"
  by (rule call_out_of_bounds[where B = 3 and L = 4 and C = 3])
     (simp_all add: zeros_def exact_floats_def)





















end
